theory Spec2Isabelle
  imports Main "HOL-Library.Word" "HOL-Library.List_Lexorder" "HOL-Library.Char_ord"
    "HOL-Library.Sublist"
begin

section \<open>Delta Lake metadata parser (DeltaLakeMetadataParser.cpp)\<close>

text \<open>
  A shallow embedding of \<^verbatim>\<open>DeltaLakeMetadataParser<Configuration, MetadataReadHelper>::Impl\<close>.
  Exceptions are values of \<open>ErrorCode + 'a\<close> (\<open>Inl\<close> the error code thrown), the
  local variables of \<^verbatim>\<open>processMetadataFiles\<close> that are passed by reference are a record
  that is passed and returned, and the object store is a record of functions. Logging is left out.
\<close>

subsection \<open>Error codes and engine types\<close>

datatype ErrorCode =
    INCORRECT_DATA
  | LOGICAL_ERROR
  | BAD_ARGUMENTS
  | NOT_IMPLEMENTED
  | ATTEMPT_TO_READ_AFTER_EOF
  | CANNOT_PARSE_NUMBER
  | CANNOT_PARSE_INPUT_ASSERTION_FAILED
  | ARGUMENT_OUT_OF_BOUND
  | CANNOT_PARSE_DATETIME

text \<open>
  The data types of the engine that the parser builds or tests. \<open>DataTypeBool\<close> is what
  \<^verbatim>\<open>DataTypeFactory::instance().get("Bool")\<close> returns.
\<close>

datatype DataType =
    DataTypeString
  | DataTypeFixedString nat
  | DataTypeInt8 | DataTypeInt16 | DataTypeInt32 | DataTypeInt64
  | DataTypeUInt8 | DataTypeUInt16 | DataTypeUInt32 | DataTypeUInt64
  | DataTypeFloat32 | DataTypeFloat64
  | DataTypeBool
  | DataTypeDate | DataTypeDate32
  | DataTypeDateTime64 nat
  | DataTypeDecimal nat nat
  | DataTypeNullable DataType
  | DataTypeTuple "DataType list" "string list"
  | DataTypeArray DataType
  | DataTypeMap DataType DataType

type_synonym NameAndTypePair = "string \<times> DataType"
type_synonym NamesAndTypesList = "NameAndTypePair list"

text \<open>
  A \<^verbatim>\<open>Field\<close>: a string, or a number as the text parsers return it (a Float64 as its 64 bits).
\<close>

datatype Field =
    Field_String string
  | Field_UInt64 nat
  | Field_Int64 int
  | Field_Float64 "64 word"
  | Field_DateTime64 int

type_synonym DataLakePartitionColumn = "NameAndTypePair \<times> Field"
type_synonym DataLakePartitionColumns = "string \<rightharpoonup> DataLakePartitionColumn list"

text \<open>
  Functions of the engine that the parser calls and that are defined in other files:
  \<^verbatim>\<open>createDecimal<DataTypeDecimal>(precision, scale)\<close>, and the text parsers
  (\<^verbatim>\<open>parse<T>\<close>, \<^verbatim>\<open>LocalDate\<close>, \<^verbatim>\<open>readDateTime64Text\<close>) that \<^verbatim>\<open>getFieldValue\<close> calls for the
  type given. They are parameters of the model. \<open>uninitialized_scale\<close> is the indeterminate
  content of the local \<^verbatim>\<open>size_t scale;\<close> of \<^verbatim>\<open>getSimpleTypeByName\<close>, which is declared
  without an initialiser.
\<close>

record Helpers =
  createDecimal :: "nat \<Rightarrow> nat \<Rightarrow> ErrorCode + DataType"
  parse :: "DataType \<Rightarrow> string \<Rightarrow> ErrorCode + Field"
  uninitialized_scale :: nat

subsection \<open>File names\<close>

definition deltalake_metadata_directory :: string where
  "deltalake_metadata_directory = ''_delta_log''"

definition metadata_file_suffix :: string where
  "metadata_file_suffix = ''.json''"

definition digit_char :: "nat \<Rightarrow> char" where
  "digit_char d = ''0123456789'' ! d"

text \<open>
  Modelled from the spec: \<^verbatim>\<open>toString\<close> (IO/WriteHelpers.h) is not in the source file; the spec
  calls it \<^verbatim>\<open>str(v)\<close>, the decimal representation of \<open>v\<close>.
\<close>

fun toString :: "nat \<Rightarrow> string" where
  "toString n = (if n < 10 then [digit_char n] else toString (n div 10) @ [digit_char (n mod 10)])"

declare toString.simps [simp del]

text \<open>
  \<^verbatim>\<open>withPadding(size_t version)\<close>: \<open>padding - version_str.size()\<close> is a subtraction of
  \<^verbatim>\<open>size_t\<close>; a \<^verbatim>\<open>size_t\<close> has at most 20 decimal digits, so it never wraps (lemma
  \<open>length_toString_unat\<close> below).
\<close>

definition withPadding :: "64 word \<Rightarrow> string" where
  "withPadding version =
     (let padding = 20; version_str = toString (unat version)
      in replicate (padding - length version_str) CHR ''0'' @ version_str)"

text \<open>
  Modelled from the spec: \<^verbatim>\<open>operator/\<close> and \<^verbatim>\<open>filename()\<close> of \<^verbatim>\<open>std::filesystem::path\<close> (the C++
  standard library, POSIX paths) are not in the source file. The spec prefixes a path by the
  root and takes the basename of a data file. An absolute right operand replaces the left one;
  a separator is added when the left operand ends in a file name.
\<close>

definition path_append :: "string \<Rightarrow> string \<Rightarrow> string" where
  "path_append p q =
     (if q \<noteq> [] \<and> hd q = CHR ''/'' then q
      else if p \<noteq> [] \<and> last p \<noteq> CHR ''/'' then p @ ''/'' @ q
      else p @ q)"

definition filename :: "string \<Rightarrow> string" where
  "filename p = rev (takeWhile (\<lambda>c. c \<noteq> CHR ''/'') (rev p))"

subsection \<open>Type resolution\<close>

text \<open>
  Modelled from the spec: the \<^verbatim>\<open>ReadBuffer\<close> helpers \<^verbatim>\<open>readIntText\<close>, \<^verbatim>\<open>tryReadIntText\<close>,
  \<^verbatim>\<open>skipWhitespaceIfAny\<close> and \<^verbatim>\<open>assertChar\<close> (IO/ReadHelpers.h) are not in the source file. A
  buffer is the text that is left to read. \<^verbatim>\<open>readIntText\<close> on a \<^verbatim>\<open>size_t\<close> reads an optional
  \<open>+\<close> and the decimal digits at the front of the buffer (arithmetic modulo \<open>2^64\<close>), throws
  at the end of the buffer, on \<open>-\<close> and on a sign without a digit; \<^verbatim>\<open>tryReadIntText\<close> returns
  false where \<^verbatim>\<open>readIntText\<close> throws, and leaves its target as it was (the spec, section 9: "on
  missing scale the value is unspecified"); \<^verbatim>\<open>assertChar\<close> throws unless the next character is
  the one given.
\<close>

definition isNumericASCII :: "char \<Rightarrow> bool" where
  "isNumericASCII c = (CHR ''0'' \<le> c \<and> c \<le> CHR ''9'')"

definition isWhitespaceASCII :: "char \<Rightarrow> bool" where
  "isWhitespaceASCII c = (c \<in> set [CHR '' '', CHR 0x09, CHR 0x0A, CHR 0x0D, CHR 0x0C, CHR 0x0B])"

fun readIntTextImpl :: "bool \<Rightarrow> bool \<Rightarrow> nat \<Rightarrow> string \<Rightarrow> ErrorCode + (bool \<times> bool \<times> nat \<times> string)" where
  "readIntTextImpl has_sign has_number res [] = Inr (has_sign, has_number, res, [])"
| "readIntTextImpl has_sign has_number res (c # cs) =
     (if c = CHR ''+'' then
        (if has_number then Inr (has_sign, has_number, res, c # cs)
         else if has_sign then Inl CANNOT_PARSE_NUMBER
         else readIntTextImpl True has_number res cs)
      else if c = CHR ''-'' then
        (if has_number then Inr (has_sign, has_number, res, c # cs)
         else Inl CANNOT_PARSE_NUMBER)
      else if isNumericASCII c then
        readIntTextImpl has_sign True ((res * 10 + (of_char c - of_char CHR ''0'')) mod 2 ^ 64) cs
      else Inr (has_sign, has_number, res, c # cs))"

definition readIntText :: "string \<Rightarrow> ErrorCode + (nat \<times> string)" where
  "readIntText buf =
     (if buf = [] then Inl ATTEMPT_TO_READ_AFTER_EOF
      else case readIntTextImpl False False 0 buf of
             Inl e \<Rightarrow> Inl e
           | Inr (has_sign, has_number, res, rest) \<Rightarrow>
               if has_sign \<and> \<not> has_number then Inl CANNOT_PARSE_NUMBER else Inr (res, rest))"

text \<open>\<open>tryReadIntText x buf\<close> returns the new content of \<open>x\<close>.\<close>

definition tryReadIntText :: "nat \<Rightarrow> string \<Rightarrow> nat" where
  "tryReadIntText x buf = (case readIntText buf of Inl e \<Rightarrow> x | Inr (res, rest) \<Rightarrow> res)"

definition skipWhitespaceIfAny :: "string \<Rightarrow> string" where
  "skipWhitespaceIfAny buf = dropWhile isWhitespaceASCII buf"

definition assertChar :: "char \<Rightarrow> string \<Rightarrow> ErrorCode + string" where
  "assertChar symbol buf =
     (case buf of
        [] \<Rightarrow> Inl CANNOT_PARSE_INPUT_ASSERTION_FAILED
      | c # cs \<Rightarrow> if c = symbol then Inr cs else Inl CANNOT_PARSE_INPUT_ASSERTION_FAILED)"

definition starts_with :: "string \<Rightarrow> string \<Rightarrow> bool" where
  "starts_with s p = (take (length p) s = p)"

definition ends_with :: "string \<Rightarrow> char \<Rightarrow> bool" where
  "ends_with s c = (s \<noteq> [] \<and> last s = c)"

definition getSimpleTypeByName :: "Helpers \<Rightarrow> string \<Rightarrow> ErrorCode + DataType" where
  "getSimpleTypeByName env type_name =
     (if type_name = ''string'' \<or> type_name = ''binary'' then Inr DataTypeString
      else if type_name = ''long'' then Inr DataTypeInt64
      else if type_name = ''integer'' then Inr DataTypeInt32
      else if type_name = ''short'' then Inr DataTypeInt16
      else if type_name = ''byte'' then Inr DataTypeInt8
      else if type_name = ''float'' then Inr DataTypeFloat32
      else if type_name = ''double'' then Inr DataTypeFloat64
      else if type_name = ''boolean'' then Inr DataTypeBool
      else if type_name = ''date'' then Inr DataTypeDate32
      else if type_name = ''timestamp'' then Inr (DataTypeDateTime64 6)
      else if starts_with type_name ''decimal('' \<and> ends_with type_name CHR '')'' then
        (case readIntText (drop 8 (butlast type_name)) of
           Inl e \<Rightarrow> Inl e
         | Inr (precision, buf1) \<Rightarrow>
             (case assertChar CHR '','' (skipWhitespaceIfAny buf1) of
                Inl e \<Rightarrow> Inl e
              | Inr buf2 \<Rightarrow>
                  createDecimal env precision
                    (tryReadIntText (uninitialized_scale env) (skipWhitespaceIfAny buf2))))
      else Inl BAD_ARGUMENTS)"

text \<open>
  Modelled from the spec: \<^verbatim>\<open>makeNullable\<close> (DataTypes/DataTypeNullable.h) is not in the source
  file: "the resolved type is wrapped in an optional container".
\<close>

definition makeNullable :: "DataType \<Rightarrow> DataType" where
  "makeNullable t = (case t of DataTypeNullable n \<Rightarrow> t | _ \<Rightarrow> DataTypeNullable t)"

text \<open>
  The JSON value under a type key (\<^verbatim>\<open>type\<close>, \<^verbatim>\<open>elementType\<close>, \<^verbatim>\<open>keyType\<close>, \<^verbatim>\<open>valueType\<close>): a string, an
  object, or something else. An object is given by its \<^verbatim>\<open>type\<close> member and the members that
  \<^verbatim>\<open>getComplexTypeFromObject\<close> reads for it: for \<^verbatim>\<open>struct\<close> the \<^verbatim>\<open>name\<close>, \<^verbatim>\<open>required\<close> and \<^verbatim>\<open>type\<close>
  of each of its \<^verbatim>\<open>fields\<close>, for \<^verbatim>\<open>array\<close> \<^verbatim>\<open>containsNull\<close> and \<^verbatim>\<open>elementType\<close>, for \<^verbatim>\<open>map\<close>
  \<^verbatim>\<open>containsNull\<close>, \<^verbatim>\<open>keyType\<close> and \<^verbatim>\<open>valueType\<close>.
\<close>

datatype TypeJson =
    JsonString string
  | JsonObject TypeObject
  | JsonOther
and TypeObject =
    StructObject "(string \<times> bool \<times> TypeJson) list"
  | ArrayObject bool TypeJson
  | MapObject bool TypeJson TypeJson
  | OtherObject string

fun getFieldType :: "Helpers \<Rightarrow> TypeJson \<Rightarrow> bool \<Rightarrow> ErrorCode + DataType"
and getComplexTypeFromObject :: "Helpers \<Rightarrow> TypeObject \<Rightarrow> ErrorCode + DataType"
and struct_elements :: "Helpers \<Rightarrow> (string \<times> bool \<times> TypeJson) list \<Rightarrow> ErrorCode + (DataType list \<times> string list)"
where
  "getFieldType env (JsonObject obj) is_nullable = getComplexTypeFromObject env obj"
| "getFieldType env (JsonString type_name) is_nullable =
     (case getSimpleTypeByName env type_name of
        Inl e \<Rightarrow> Inl e
      | Inr data_type \<Rightarrow> Inr (if is_nullable then makeNullable data_type else data_type))"
| "getFieldType env JsonOther is_nullable = Inl BAD_ARGUMENTS"
| "getComplexTypeFromObject env (StructObject struct_fields) =
     (case struct_elements env struct_fields of
        Inl e \<Rightarrow> Inl e
      | Inr (element_types, element_names) \<Rightarrow> Inr (DataTypeTuple element_types element_names))"
| "getComplexTypeFromObject env (ArrayObject is_nullable elementType) =
     (case getFieldType env elementType is_nullable of
        Inl e \<Rightarrow> Inl e
      | Inr element_type \<Rightarrow> Inr (DataTypeArray element_type))"
| "getComplexTypeFromObject env (MapObject is_nullable keyType valueType) =
     (case getFieldType env keyType False of
        Inl e \<Rightarrow> Inl e
      | Inr key_type \<Rightarrow>
          (case getFieldType env valueType is_nullable of
             Inl e \<Rightarrow> Inl e
           | Inr value_type \<Rightarrow> Inr (DataTypeMap key_type value_type)))"
| "getComplexTypeFromObject env (OtherObject type_name) = Inl BAD_ARGUMENTS"
| "struct_elements env [] = Inr ([], [])"
| "struct_elements env ((name, required, t) # rest) =
     (case getFieldType env t required of
        Inl e \<Rightarrow> Inl e
      | Inr element_type \<Rightarrow>
          (case struct_elements env rest of
             Inl e \<Rightarrow> Inl e
           | Inr (element_types, element_names) \<Rightarrow>
               Inr (element_type # element_types, name # element_names)))"

subsection \<open>Partition values\<close>

text \<open>
  \<^verbatim>\<open>WhichDataType which(check_type->getTypeId())\<close>: the tests of \<^verbatim>\<open>getFieldValue\<close> on the type
  index. The type \<^verbatim>\<open>Bool\<close> of the factory has the type index of \<^verbatim>\<open>UInt8\<close>.
\<close>

fun isStringOrFixedString :: "DataType \<Rightarrow> bool" where
  "isStringOrFixedString DataTypeString = True"
| "isStringOrFixedString (DataTypeFixedString n) = True"
| "isStringOrFixedString t = False"

fun isUInt8 :: "DataType \<Rightarrow> bool" where
  "isUInt8 DataTypeUInt8 = True"
| "isUInt8 DataTypeBool = True"
| "isUInt8 t = False"

fun isDateTime64 :: "DataType \<Rightarrow> bool" where
  "isDateTime64 (DataTypeDateTime64 scale) = True"
| "isDateTime64 t = False"

text \<open>
  \<^verbatim>\<open>getFieldValue\<close>. Each branch calls the text parser of the type it has found; the last one
  reads the time zone from \<open>data_type\<close>, as the source does.
\<close>

definition getFieldValue :: "Helpers \<Rightarrow> string \<Rightarrow> DataType \<Rightarrow> ErrorCode + Field" where
  "getFieldValue env val data_type =
     (let check_type = (case data_type of DataTypeNullable nested \<Rightarrow> nested | _ \<Rightarrow> data_type)
      in if isStringOrFixedString check_type then Inr (Field_String val)
         else if check_type = DataTypeInt8 then parse env DataTypeInt8 val
         else if isUInt8 check_type then parse env DataTypeUInt8 val
         else if check_type = DataTypeInt16 then parse env DataTypeInt16 val
         else if check_type = DataTypeUInt16 then parse env DataTypeUInt16 val
         else if check_type = DataTypeInt32 then parse env DataTypeInt32 val
         else if check_type = DataTypeUInt32 then parse env DataTypeUInt32 val
         else if check_type = DataTypeInt64 then parse env DataTypeInt64 val
         else if check_type = DataTypeUInt64 then parse env DataTypeUInt64 val
         else if check_type = DataTypeFloat32 then parse env DataTypeFloat32 val
         else if check_type = DataTypeFloat64 then parse env DataTypeFloat64 val
         else if check_type = DataTypeDate then parse env DataTypeDate val
         else if check_type = DataTypeDate32 then parse env DataTypeDate32 val
         else if isDateTime64 check_type then parse env data_type val
         else Inl BAD_ARGUMENTS)"

text \<open>
  Modelled from the spec: \<^verbatim>\<open>NamesAndTypesList::tryGetByName\<close> (Core/NamesAndTypes.h) is not in the
  source file: "the current schema's type for \<open>name\<close>", none if the name is unknown.
\<close>

definition tryGetByName :: "NamesAndTypesList \<Rightarrow> string \<Rightarrow> NameAndTypePair option" where
  "tryGetByName schema name = find (\<lambda>column. fst column = name) schema"

subsection \<open>The objects of a log file\<close>

text \<open>
  \<^verbatim>\<open>Poco::JSON\<close> is a library; the model starts from the decoded object. A decoded object says,
  for each top-level key that \<^verbatim>\<open>processMetadataFile\<close> tests, whether the object has it, and gives
  the members that the code reads under it: of \<^verbatim>\<open>add\<close> the \<^verbatim>\<open>path\<close> and the \<^verbatim>\<open>partitionValues\<close>
  (the names in the order of \<^verbatim>\<open>getNames()\<close>, each with its value), of \<^verbatim>\<open>remove\<close> the \<^verbatim>\<open>path\<close>, of
  \<^verbatim>\<open>metaData\<close> the \<^verbatim>\<open>fields\<close> of the parsed \<^verbatim>\<open>schemaString\<close>, each with its \<^verbatim>\<open>name\<close>, \<^verbatim>\<open>type\<close>,
  \<^verbatim>\<open>nullable\<close> and, if its \<^verbatim>\<open>metadata\<close> has that key, \<^verbatim>\<open>delta.columnMapping.physicalName\<close>.
\<close>

record AddObject =
  add_path :: string
  partitionValues :: "(string \<times> string) list"

record SchemaField =
  field_name :: string
  field_type :: TypeJson
  field_nullable :: bool
  physicalName :: "string option"

record LogObject =
  add_key :: "AddObject option"
  remove_key :: "string option"
  metaData_key :: "SchemaField list option"

subsection \<open>processMetadataFile\<close>

text \<open>
  The three variables that \<^verbatim>\<open>processMetadataFile\<close> gets by reference: \<^verbatim>\<open>result\<close> (a
  \<^verbatim>\<open>std::set<String>\<close>), \<^verbatim>\<open>file_schema\<close> and \<^verbatim>\<open>file_partition_columns\<close>.
\<close>

record State =
  result :: "string set"
  file_schema :: NamesAndTypesList
  file_partition_columns :: DataLakePartitionColumns

text \<open>
  The loop over \<^verbatim>\<open>partition_values->getNames()\<close>, lines 206 to 217; \<open>current_partition_columns\<close>
  is the vector of this file, to which each pair is appended.
\<close>

fun partition_values_loop ::
  "Helpers \<Rightarrow> NamesAndTypesList \<Rightarrow> (string \<times> string) list \<Rightarrow> DataLakePartitionColumn list
     \<Rightarrow> ErrorCode + DataLakePartitionColumn list" where
  "partition_values_loop env schema [] current_partition_columns = Inr current_partition_columns"
| "partition_values_loop env schema ((name, val) # rest) current_partition_columns =
     (case tryGetByName schema name of
        None \<Rightarrow> Inl LOGICAL_ERROR
      | Some name_and_type \<Rightarrow>
          (case getFieldValue env val (snd name_and_type) of
             Inl e \<Rightarrow> Inl e
           | Inr field \<Rightarrow>
               partition_values_loop env schema rest
                 (current_partition_columns @ [(name_and_type, field)])))"

text \<open>The loop over the \<^verbatim>\<open>fields\<close> of the schema, lines 236 to 255.\<close>

fun schema_fields_loop :: "Helpers \<Rightarrow> SchemaField list \<Rightarrow> ErrorCode + NamesAndTypesList" where
  "schema_fields_loop env [] = Inr []"
| "schema_fields_loop env (field # rest) =
     (let physical_name = (case physicalName field of Some n \<Rightarrow> n | None \<Rightarrow> field_name field)
      in case getFieldType env (field_type field) (field_nullable field) of
           Inl e \<Rightarrow> Inl e
         | Inr t \<Rightarrow>
             (case schema_fields_loop env rest of
                Inl e \<Rightarrow> Inl e
              | Inr current_schema \<Rightarrow> Inr ((physical_name, t) # current_schema)))"

text \<open>
  The body of the \<^verbatim>\<open>while\<close> loop of \<^verbatim>\<open>processMetadataFile\<close> for one decoded object, lines 192
  to 268: \<^verbatim>\<open>if (has("add")) ... else if (has("remove")) ...\<close>, then \<^verbatim>\<open>if (has("metaData")) ...\<close>.
\<close>

definition process_add_remove :: "Helpers \<Rightarrow> string \<Rightarrow> LogObject \<Rightarrow> State \<Rightarrow> ErrorCode + State" where
  "process_add_remove env configuration_path object st =
     (case add_key object of
        Some add_object \<Rightarrow>
          (let st1 = st\<lparr>result := insert (path_append configuration_path (add_path add_object)) (result st)\<rparr>;
               file = filename (add_path add_object)
           in case file_partition_columns st1 file of
                Some it \<Rightarrow> Inr st1
              | None \<Rightarrow>
                  if partitionValues add_object \<noteq> [] then
                    (case partition_values_loop env (file_schema st1) (partitionValues add_object) [] of
                       Inl e \<Rightarrow> Inl e
                     | Inr current_partition_columns \<Rightarrow>
                         Inr (st1\<lparr>file_partition_columns :=
                                (file_partition_columns st1)(file \<mapsto> current_partition_columns)\<rparr>))
                  else Inr st1)
      | None \<Rightarrow>
          (case remove_key object of
             Some remove_path \<Rightarrow>
               Inr (st\<lparr>result := result st - {path_append configuration_path remove_path}\<rparr>)
           | None \<Rightarrow> Inr st))"

definition process_metaData :: "Helpers \<Rightarrow> LogObject \<Rightarrow> State \<Rightarrow> ErrorCode + State" where
  "process_metaData env object st =
     (case metaData_key object of
        Some schema_fields \<Rightarrow>
          (case schema_fields_loop env schema_fields of
             Inl e \<Rightarrow> Inl e
           | Inr current_schema \<Rightarrow>
               if file_schema st = [] then Inr (st\<lparr>file_schema := current_schema\<rparr>)
               else if file_schema st \<noteq> current_schema then Inl NOT_IMPLEMENTED
               else Inr st)
      | None \<Rightarrow> Inr st)"

definition process_object :: "Helpers \<Rightarrow> string \<Rightarrow> LogObject \<Rightarrow> State \<Rightarrow> ErrorCode + State" where
  "process_object env configuration_path object st =
     (case process_add_remove env configuration_path object st of
        Inl e \<Rightarrow> Inl e
      | Inr st1 \<Rightarrow> process_metaData env object st1)"

text \<open>The \<^verbatim>\<open>while (!buf->eof())\<close> loop over the objects decoded from one file.\<close>

fun process_objects :: "Helpers \<Rightarrow> string \<Rightarrow> LogObject list \<Rightarrow> State \<Rightarrow> ErrorCode + State" where
  "process_objects env configuration_path [] st = Inr st"
| "process_objects env configuration_path (object # rest) st =
     (case process_object env configuration_path object st of
        Inl e \<Rightarrow> Inl e
      | Inr st1 \<Rightarrow> process_objects env configuration_path rest st1)"

subsection \<open>The object store\<close>

text \<open>
  \<^verbatim>\<open>MetadataReadHelper\<close>, the Parquet reader and the JSON decoders are outside the source file.
  The store is given by what they return: whether a path exists, the keys that \<^verbatim>\<open>listFiles\<close>
  returns for the \<^verbatim>\<open>.json\<close> files of the log directory, the objects decoded from the file at a
  key, the \<^verbatim>\<open>version\<close> in the JSON file at a path, and the chunk read from the Parquet file at
  a path (or the error thrown while reading it): its number of columns and the strings of
  the \<^verbatim>\<open>path\<close> column of \<^verbatim>\<open>add\<close>, one for each row.
\<close>

record Chunk =
  res_columns_size :: nat
  path_column :: "string list"

record Storage =
  exists_file :: "string \<Rightarrow> bool"
  listFiles :: "string list"
  log_objects :: "string \<Rightarrow> LogObject list"
  last_checkpoint_version :: "string \<Rightarrow> 64 word"
  read_checkpoint :: "string \<Rightarrow> ErrorCode + Chunk"

text \<open>The calls made to the store, in order.\<close>

datatype Call = Exists string | CreateReadBuffer string | ListFiles

definition processMetadataFile ::
  "Helpers \<Rightarrow> Storage \<Rightarrow> string \<Rightarrow> string \<Rightarrow> State \<Rightarrow> ErrorCode + State" where
  "processMetadataFile env storage configuration_path key st =
     process_objects env configuration_path (log_objects storage key) st"

subsection \<open>Checkpoints\<close>

definition readLastCheckpointIfExists :: "Storage \<Rightarrow> string \<Rightarrow> Call list \<times> 64 word" where
  "readLastCheckpointIfExists storage configuration_path =
     (let last_checkpoint_file =
            path_append (path_append configuration_path deltalake_metadata_directory) ''_last_checkpoint''
      in if \<not> exists_file storage last_checkpoint_file then ([Exists last_checkpoint_file], 0)
         else ([Exists last_checkpoint_file, CreateReadBuffer last_checkpoint_file],
               last_checkpoint_version storage last_checkpoint_file))"

text \<open>The loop over the rows of the \<^verbatim>\<open>path\<close> column, lines 546 to 555.\<close>

fun checkpoint_rows_loop :: "string \<Rightarrow> string list \<Rightarrow> string set \<Rightarrow> ErrorCode + string set" where
  "checkpoint_rows_loop configuration_path [] res = Inr res"
| "checkpoint_rows_loop configuration_path (file # rest) res =
     (if file = [] then checkpoint_rows_loop configuration_path rest res
      else if path_append configuration_path file \<in> res then Inl INCORRECT_DATA
      else checkpoint_rows_loop configuration_path rest
             (insert (path_append configuration_path file) res))"

definition getCheckpointIfExists ::
  "Storage \<Rightarrow> string \<Rightarrow> string set \<Rightarrow> Call list \<times> (ErrorCode + (string set \<times> 64 word))" where
  "getCheckpointIfExists storage configuration_path res =
     (case readLastCheckpointIfExists storage configuration_path of
        (calls, version) \<Rightarrow>
          if version = 0 then (calls, Inr (res, 0))
          else
            (let checkpoint_filename = withPadding version @ ''.checkpoint.parquet'';
                 checkpoint_path =
                   path_append (path_append configuration_path deltalake_metadata_directory)
                     checkpoint_filename
             in (calls @ [CreateReadBuffer checkpoint_path],
                 case read_checkpoint storage checkpoint_path of
                   Inl e \<Rightarrow> Inl e
                 | Inr chunk \<Rightarrow>
                     if res_columns_size chunk \<noteq> 2 then Inl INCORRECT_DATA
                     else (case checkpoint_rows_loop configuration_path (path_column chunk) res of
                             Inl e \<Rightarrow> Inl e
                           | Inr res1 \<Rightarrow> Inr (res1, version)))))"

subsection \<open>processMetadataFiles\<close>

record DeltaLakeMetadata =
  schema :: NamesAndTypesList
  data_files :: "string list"
  partition_columns :: DataLakePartitionColumns

definition log_file_path :: "string \<Rightarrow> 64 word \<Rightarrow> string" where
  "log_file_path configuration_path version =
     path_append (path_append configuration_path deltalake_metadata_directory)
       (withPadding version @ metadata_file_suffix)"

text \<open>
  The \<^verbatim>\<open>while (true)\<close> loop of lines 102 to 111. \<^verbatim>\<open>++current_version\<close> is an addition of
  \<^verbatim>\<open>size_t\<close>, which wraps around. The loop ends at the first file that does not exist, or
  when \<^verbatim>\<open>processMetadataFile\<close> throws; in a store where every file exists it does not end, and
  the value is \<open>None\<close>. \<open>calls\<close> collects the calls made to the store.
\<close>

partial_function (option) metadata_files_loop ::
  "Helpers \<Rightarrow> Storage \<Rightarrow> string \<Rightarrow> 64 word \<Rightarrow> State \<Rightarrow> Call list
     \<Rightarrow> (Call list \<times> (ErrorCode + State)) option" where
  "metadata_files_loop env storage configuration_path current_version st calls =
     (let file_path = log_file_path configuration_path (current_version + 1)
      in if \<not> exists_file storage file_path then Some (calls @ [Exists file_path], Inr st)
         else
           (case processMetadataFile env storage configuration_path file_path st of
              Inl e \<Rightarrow> Some (calls @ [Exists file_path, CreateReadBuffer file_path], Inl e)
            | Inr st1 \<Rightarrow>
                metadata_files_loop env storage configuration_path (current_version + 1) st1
                  (calls @ [Exists file_path, CreateReadBuffer file_path])))"

declare metadata_files_loop.simps [code]

text \<open>The loop \<^verbatim>\<open>for (const String & key : keys)\<close> of lines 122 and 123.\<close>

fun keys_loop ::
  "Helpers \<Rightarrow> Storage \<Rightarrow> string \<Rightarrow> string list \<Rightarrow> State \<Rightarrow> Call list
     \<Rightarrow> Call list \<times> (ErrorCode + State)" where
  "keys_loop env storage configuration_path [] st calls = (calls, Inr st)"
| "keys_loop env storage configuration_path (key # rest) st calls =
     (case processMetadataFile env storage configuration_path key st of
        Inl e \<Rightarrow> (calls @ [CreateReadBuffer key], Inl e)
      | Inr st1 \<Rightarrow> keys_loop env storage configuration_path rest st1 (calls @ [CreateReadBuffer key]))"

definition make_metadata :: "State \<Rightarrow> DeltaLakeMetadata" where
  "make_metadata st =
     \<lparr>schema = file_schema st, data_files = sorted_list_of_set (result st),
      partition_columns = file_partition_columns st\<rparr>"

definition processMetadataFiles ::
  "Helpers \<Rightarrow> Storage \<Rightarrow> string \<Rightarrow> (Call list \<times> (ErrorCode + DeltaLakeMetadata)) option" where
  "processMetadataFiles env storage configuration_path =
     (case getCheckpointIfExists storage configuration_path {} of
        (calls, Inl e) \<Rightarrow> Some (calls, Inl e)
      | (calls, Inr (result_files, checkpoint_version)) \<Rightarrow>
          (let st = \<lparr>result = result_files, file_schema = [], file_partition_columns = Map.empty\<rparr>
           in map_option (\<lambda>(calls1, r). (calls1, map_sum id make_metadata r))
                (if checkpoint_version \<noteq> 0 then
                   metadata_files_loop env storage configuration_path checkpoint_version st calls
                 else
                   Some (keys_loop env storage configuration_path (listFiles storage) st
                           (calls @ [ListFiles])))))"

subsection \<open>Auxiliary definitions for the statements\<close>

text \<open>The number that a string of decimal digits denotes.\<close>


fun dec_value :: "string \<Rightarrow> nat" where
  "dec_value [] = 0"
| "dec_value (c # cs) = (of_char c - of_char CHR ''0'') * 10 ^ length cs + dec_value cs"

text \<open>
  An instance of the parameters, for the examples: every decimal is created, and a partition
  value is parsed as the number its digits denote.
\<close>

definition example_helpers :: Helpers where
  "example_helpers =
     \<lparr>createDecimal = (\<lambda>precision scale. Inr (DataTypeDecimal precision scale)),
      parse = (\<lambda>t val. if val = [] then Inl ATTEMPT_TO_READ_AFTER_EOF
                        else Inr (Field_Int64 (int (dec_value val)))),
      uninitialized_scale = 7\<rparr>"

text \<open>The paths that the rows of a checkpoint emit: of each row that is not empty, the path under the root.\<close>

definition emitted_paths :: "string \<Rightarrow> string list \<Rightarrow> string list" where
  "emitted_paths configuration_path rows =
     map (path_append configuration_path) (filter (\<lambda>file. file \<noteq> []) rows)"

text \<open>The objects \<^verbatim>\<open>{"remove":{"path":p}}\<close> and \<^verbatim>\<open>{"add":{"path":p,"partitionValues":{...}}}\<close>.\<close>

definition remove_object :: "string \<Rightarrow> LogObject" where
  "remove_object p = \<lparr>add_key = None, remove_key = Some p, metaData_key = None\<rparr>"

definition add_object :: "string \<Rightarrow> (string \<times> string) list \<Rightarrow> LogObject" where
  "add_object p values =
     \<lparr>add_key = Some \<lparr>add_path = p, partitionValues = values\<rparr>, remove_key = None, metaData_key = None\<rparr>"

text \<open>The variables as \<^verbatim>\<open>processMetadataFiles\<close> declares them.\<close>

definition empty_state :: State where
  "empty_state = \<lparr>result = {}, file_schema = [], file_partition_columns = Map.empty\<rparr>"

text \<open>
  A field \<^verbatim>\<open>{"name":n,"type":"long","nullable":false,"metadata":{}}\<close>, an object with the key
  \<^verbatim>\<open>metaData\<close> alone, and an object with the keys \<^verbatim>\<open>add\<close> and \<^verbatim>\<open>remove\<close>.
\<close>

definition long_field :: "string \<Rightarrow> SchemaField" where
  "long_field n = \<lparr>field_name = n, field_type = JsonString ''long'', field_nullable = False, physicalName = None\<rparr>"

definition metaData_object :: "SchemaField list \<Rightarrow> LogObject" where
  "metaData_object schema_fields = \<lparr>add_key = None, remove_key = None, metaData_key = Some schema_fields\<rparr>"

definition add_and_remove_object :: "string \<Rightarrow> string \<Rightarrow> LogObject" where
  "add_and_remove_object p q =
     \<lparr>add_key = Some \<lparr>add_path = p, partitionValues = []\<rparr>, remove_key = Some q, metaData_key = None\<rparr>"

definition all_keys_object :: LogObject where
  "all_keys_object =
     \<lparr>add_key = Some \<lparr>add_path = ''a'', partitionValues = []\<rparr>, remove_key = Some ''b'',
      metaData_key = Some [long_field ''x'']\<rparr>"

text \<open>
  A store without a checkpoint, whose one log file declares the column \<open>v\<close>, adds the file
  \<^verbatim>\<open>v=7/f.parquet\<close> with the partition value \<open>7\<close> and removes it again.
\<close>

definition removed_file_storage :: Storage where
  "removed_file_storage =
     \<lparr>exists_file = (\<lambda>p. False),
      listFiles = [''r/_delta_log/00000000000000000000.json''],
      log_objects = (\<lambda>key. if key = ''r/_delta_log/00000000000000000000.json''
                           then [metaData_object [long_field ''v''],
                                 add_object ''v=7/f.parquet'' [(''v'', ''7'')],
                                 remove_object ''v=7/f.parquet'']
                           else []),
      last_checkpoint_version = (\<lambda>p. 0),
      read_checkpoint = (\<lambda>p. Inl BAD_ARGUMENTS)\<rparr>"

text \<open>
  The typed value of one pair of partition values, in the words of the spec: the value
  computed with the type that the schema has for the name, \<open>LOGICAL_ERROR\<close> if the name is
  unknown. The typed values of a list of pairs: the first error in the order of the pairs, or
  the typed value of every pair.
\<close>

definition typed_value ::
  "Helpers \<Rightarrow> NamesAndTypesList \<Rightarrow> string \<times> string \<Rightarrow> ErrorCode + DataLakePartitionColumn" where
  "typed_value env sch pair =
     (case tryGetByName sch (fst pair) of
        None \<Rightarrow> Inl LOGICAL_ERROR
      | Some name_and_type \<Rightarrow>
          (case getFieldValue env (snd pair) (snd name_and_type) of
             Inl e \<Rightarrow> Inl e
           | Inr field \<Rightarrow> Inr (name_and_type, field)))"

definition typed_values ::
  "Helpers \<Rightarrow> NamesAndTypesList \<Rightarrow> (string \<times> string) list \<Rightarrow> ErrorCode + DataLakePartitionColumn list" where
  "typed_values env sch pairs =
     (case find isl (map (typed_value env sch) pairs) of
        Some r \<Rightarrow> Inl (projl r)
      | None \<Rightarrow> Inr (map (\<lambda>pair. projr (typed_value env sch pair)) pairs))"

text \<open>
  A store without a checkpoint and with two log files: the first has a \<^verbatim>\<open>metaData\<close> whose schema
  has no fields, the second a \<^verbatim>\<open>metaData\<close> whose schema has the column \<open>x\<close>.
\<close>

definition empty_schema_storage :: Storage where
  "empty_schema_storage =
     \<lparr>exists_file = (\<lambda>p. False),
      listFiles = [''r/_delta_log/00000000000000000000.json'',
                   ''r/_delta_log/00000000000000000001.json''],
      log_objects = (\<lambda>key. if key = ''r/_delta_log/00000000000000000000.json''
                           then [metaData_object []]
                           else if key = ''r/_delta_log/00000000000000000001.json''
                           then [metaData_object [long_field ''x'']]
                           else []),
      last_checkpoint_version = (\<lambda>p. 0),
      read_checkpoint = (\<lambda>p. Inl BAD_ARGUMENTS)\<rparr>"

text \<open>
  A store with a checkpoint at version 10, whose \<^verbatim>\<open>path\<close> column has the rows given, and with the
  log file of version 11, which removes \<^verbatim>\<open>b.parquet\<close>; the log file of version 12 is absent.
\<close>

definition checkpoint_storage :: "string list \<Rightarrow> Storage" where
  "checkpoint_storage rows =
     \<lparr>exists_file = (\<lambda>p. p = ''r/_delta_log/_last_checkpoint''
                          \<or> p = ''r/_delta_log/00000000000000000011.json''),
      listFiles = [],
      log_objects = (\<lambda>key. if key = ''r/_delta_log/00000000000000000011.json''
                           then [remove_object ''b.parquet''] else []),
      last_checkpoint_version = (\<lambda>p. 10),
      read_checkpoint = (\<lambda>p. if p = ''r/_delta_log/00000000000000000010.checkpoint.parquet''
                              then Inr \<lparr>res_columns_size = 2, path_column = rows\<rparr>
                              else Inl BAD_ARGUMENTS)\<rparr>"

text \<open>
  The versions above \<open>V\<close> and below \<open>n\<close>, in increasing order. \<open>first_absent\<close>: the log file of
  version \<open>n\<close>, above \<open>V\<close>, does not exist, and the log files of the versions between them
  exist. The calls to the store for the log files of a list of versions: for each, the test
  that it exists and the reading of it.
\<close>

definition versions_between :: "64 word \<Rightarrow> 64 word \<Rightarrow> 64 word list" where
  "versions_between V n = map of_nat [Suc (unat V) ..< unat n]"

definition first_absent :: "Storage \<Rightarrow> string \<Rightarrow> 64 word \<Rightarrow> 64 word \<Rightarrow> bool" where
  "first_absent storage configuration_path V n =
     (V < n \<and> \<not> exists_file storage (log_file_path configuration_path n)
      \<and> list_all (\<lambda>v. exists_file storage (log_file_path configuration_path v)) (versions_between V n))"

definition version_calls :: "string \<Rightarrow> 64 word list \<Rightarrow> Call list" where
  "version_calls configuration_path versions =
     concat (map (\<lambda>v. [Exists (log_file_path configuration_path v),
                        CreateReadBuffer (log_file_path configuration_path v)]) versions)"

text \<open>
  The objects of the files at a list of keys, one file after the other. The keys that a parse
  reads: without a checkpoint the keys listed, after a checkpoint at \<open>V\<close> the log files of the
  versions from \<open>V + 1\<close> up to the first absent one, \<open>n\<close>.
\<close>

definition log_of :: "Storage \<Rightarrow> string list \<Rightarrow> LogObject list" where
  "log_of storage keys = concat (map (log_objects storage) keys)"

definition log_keys :: "Storage \<Rightarrow> string \<Rightarrow> 64 word \<Rightarrow> 64 word \<Rightarrow> string list" where
  "log_keys storage configuration_path V n =
     (if V = 0 then listFiles storage
      else map (log_file_path configuration_path) (versions_between V n))"

text \<open>
  No add fails: along the objects, the add or remove of every object that is reached is applied
  without failure.
\<close>

fun adds_succeed :: "Helpers \<Rightarrow> string \<Rightarrow> LogObject list \<Rightarrow> State \<Rightarrow> bool" where
  "adds_succeed env configuration_path [] st = True"
| "adds_succeed env configuration_path (object # rest) st =
     (case process_add_remove env configuration_path object st of
        Inl e \<Rightarrow> False
      | Inr st1 \<Rightarrow>
          (case process_metaData env object st1 of
             Inl e \<Rightarrow> True
           | Inr st2 \<Rightarrow> adds_succeed env configuration_path rest st2))"

text \<open>
  A field \<^verbatim>\<open>{"name":n,"type":"string","nullable":false,"metadata":{}}\<close>, and a store without a
  checkpoint and with two log files, whose \<^verbatim>\<open>metaData\<close> give the column \<open>x\<close> the type \<^verbatim>\<open>long\<close> in the
  first and \<^verbatim>\<open>string\<close> in the second.
\<close>

definition string_field :: "string \<Rightarrow> SchemaField" where
  "string_field n = \<lparr>field_name = n, field_type = JsonString ''string'', field_nullable = False, physicalName = None\<rparr>"

definition conflict_storage :: Storage where
  "conflict_storage =
     \<lparr>exists_file = (\<lambda>p. False),
      listFiles = [''r/_delta_log/00000000000000000000.json'',
                   ''r/_delta_log/00000000000000000001.json''],
      log_objects = (\<lambda>key. if key = ''r/_delta_log/00000000000000000000.json''
                           then [metaData_object [long_field ''x'']]
                           else if key = ''r/_delta_log/00000000000000000001.json''
                           then [metaData_object [string_field ''x'']]
                           else []),
      last_checkpoint_version = (\<lambda>p. 0),
      read_checkpoint = (\<lambda>p. Inl BAD_ARGUMENTS)\<rparr>"

section \<open>Properties\<close>

subsection \<open>Decimal digits\<close>

lemma digit_char_numeric: "d < 10 \<Longrightarrow> isNumericASCII (digit_char d)"
proof -
  assume "d < 10"
  then have "d \<in> {0,1,2,3,4,5,6,7,8,9}" by auto
  then show ?thesis
    by (auto simp: digit_char_def isNumericASCII_def less_eq_char_def)
qed

lemma of_char_digit_char: "d < 10 \<Longrightarrow> (of_char (digit_char d) :: nat) = 48 + d"
proof -
  assume "d < 10"
  then have "d \<in> {0,1,2,3,4,5,6,7,8,9}" by auto
  then show ?thesis
    by (auto simp: digit_char_def)
qed

lemma numeric_of_char: "isNumericASCII c \<Longrightarrow> 48 \<le> (of_char c :: nat) \<and> (of_char c :: nat) \<le> 57"
  by (simp add: isNumericASCII_def less_eq_char_def)

lemma toString_numeric: "\<forall>c \<in> set (toString n). isNumericASCII c"
proof (induction n rule: toString.induct)
  case (1 n)
  show ?case
  proof (cases "n < 10")
    case True
    then show ?thesis by (subst toString.simps) (simp add: digit_char_numeric)
  next
    case False
    with 1 show ?thesis by (subst toString.simps) (auto simp: digit_char_numeric)
  qed
qed

lemma dec_value_snoc: "dec_value (xs @ [c]) = dec_value xs * 10 + (of_char c - of_char CHR ''0'')"
  by (induction xs) (simp_all add: algebra_simps)

lemma dec_value_toString: "dec_value (toString n) = n"
proof (induction n rule: toString.induct)
  case (1 n)
  show ?case
  proof (cases "n < 10")
    case True
    then show ?thesis by (subst toString.simps) (simp add: of_char_digit_char)
  next
    case False
    with 1 show ?thesis
      by (subst toString.simps) (simp add: dec_value_snoc of_char_digit_char)
  qed
qed

lemma toString_nonempty: "toString n \<noteq> []"
  by (subst toString.simps) simp

lemma length_toString: "0 < k \<Longrightarrow> n < 10 ^ k \<Longrightarrow> length (toString n) \<le> k"
proof (induction n arbitrary: k rule: toString.induct)
  case (1 n)
  show ?case
  proof (cases "n < 10")
    case True
    with 1 show ?thesis by (subst toString.simps) simp
  next
    case False
    with 1(2,3) have k: "1 < k" by (cases "k = 1") auto
    then obtain j where j: "k = Suc j" "0 < j" by (cases k) auto
    from 1(3) j have "n div 10 < 10 ^ j" by (simp add: less_mult_imp_div_less mult.commute)
    with 1(1)[OF False j(2)] have "length (toString (n div 10)) \<le> j" by simp
    with False j show ?thesis by (subst toString.simps) simp
  qed
qed

lemma length_toString_unat: "length (toString (unat (v :: 64 word))) \<le> 20"
proof -
  have "unat v < 2 ^ 64" using unsigned_less[of v] by simp
  also have "(2::nat) ^ 64 < 10 ^ 20" by simp
  finally show ?thesis by (intro length_toString) simp_all
qed

lemma dec_value_bound: "\<forall>c \<in> set xs. isNumericASCII c \<Longrightarrow> dec_value xs < 10 ^ length xs"
proof (induction xs)
  case Nil
  then show ?case by simp
next
  case (Cons c cs)
  then have "dec_value cs < 10 ^ length cs" by simp
  moreover from Cons.prems have "(of_char c :: nat) - of_char CHR ''0'' \<le> 9"
    using numeric_of_char[of c] by auto
  then have "((of_char c :: nat) - of_char CHR ''0'') * 10 ^ length cs \<le> 9 * 10 ^ length cs"
    by (rule mult_le_mono1)
  ultimately show ?case unfolding dec_value.simps length_Cons power_Suc by linarith
qed

lemma numeric_less: "isNumericASCII c \<Longrightarrow> isNumericASCII d \<Longrightarrow>
   c < d \<longleftrightarrow> (of_char c :: nat) - of_char CHR ''0'' < of_char d - of_char CHR ''0''"
  using numeric_of_char[of c] numeric_of_char[of d] by (auto simp: less_char_def)

lemma numeric_eq: "isNumericASCII c \<Longrightarrow> isNumericASCII d \<Longrightarrow>
   c = d \<longleftrightarrow> (of_char c :: nat) - of_char CHR ''0'' = of_char d - of_char CHR ''0''"
  using numeric_of_char[of c] numeric_of_char[of d] 
  by (auto simp: ) (metis of_char_eq_iff eq_diff_iff)

lemma fixed_width_less:
  "length xs = length ys \<Longrightarrow> \<forall>c \<in> set xs. isNumericASCII c \<Longrightarrow> \<forall>c \<in> set ys. isNumericASCII c \<Longrightarrow>
   xs < ys \<longleftrightarrow> dec_value xs < dec_value ys"
proof (induction xs ys rule: list_induct2)
  case Nil
  then show ?case by simp
next
  case (Cons x xs y ys)
  let ?a = "(of_char x :: nat) - of_char CHR ''0''"
  let ?b = "(of_char y :: nat) - of_char CHR ''0''"
  let ?p = "(10::nat) ^ length ys"
  have bx: "dec_value xs < ?p" using dec_value_bound[of xs] Cons by simp
  have byy: "dec_value ys < ?p" using dec_value_bound[of ys] Cons by simp
  have IH: "xs < ys \<longleftrightarrow> dec_value xs < dec_value ys" using Cons by simp
  have lt: "x < y \<longleftrightarrow> ?a < ?b" using numeric_less[of x y] Cons.prems by simp
  have eq: "x = y \<longleftrightarrow> ?a = ?b" using numeric_eq[of x y] Cons.prems by simp
  have "?a * ?p + dec_value xs < ?b * ?p + dec_value ys \<longleftrightarrow> ?a < ?b \<or> (?a = ?b \<and> dec_value xs < dec_value ys)"
  proof (cases "?a < ?b")
    case True
    then have "Suc ?a \<le> ?b" by simp
    then have "Suc ?a * ?p \<le> ?b * ?p" by (rule mult_le_mono1)
    with bx True show ?thesis by simp
  next
    case False
    show ?thesis
    proof (cases "?a = ?b")
      case True
      then show ?thesis by simp
    next
      case F2: False
      with False have "Suc ?b \<le> ?a" by simp
      then have "Suc ?b * ?p \<le> ?a * ?p" by (rule mult_le_mono1)
      with byy False F2 show ?thesis by simp
    qed
  qed
  then show ?case using Cons.hyps IH lt eq by simp
qed

lemma append_same_less: "length xs = length ys \<Longrightarrow> (xs @ s < ys @ s) \<longleftrightarrow> (xs < (ys :: string))"
  by (induction xs ys rule: list_induct2) simp_all

lemma dec_value_replicate0: "dec_value (replicate k CHR ''0'' @ s) = dec_value s"
  by (induction k) simp_all

subsection \<open>Log file names\<close>

text \<open>
  C8. For every version \<open>v\<close> (a \<^verbatim>\<open>size_t\<close>, so \<open>v < 2^64 < 10^20\<close>) the log file name is
  \<open>20 - digits(v)\<close> characters \<open>0\<close>, then the decimal representation of \<open>v\<close>, then \<open>.json\<close>;
  the representation has at most 20 digits and denotes \<open>v\<close>; and the names are ordered
  lexicographically as the versions are ordered numerically.
\<close>

theorem withPadding_law:
  "withPadding v @ metadata_file_suffix =
     replicate (20 - length (toString (unat v))) CHR ''0'' @ toString (unat v) @ ''.json''
   \<and> length (toString (unat v)) \<le> 20
   \<and> unat v < 10 ^ 20
   \<and> dec_value (toString (unat v)) = unat v
   \<and> length (withPadding v @ metadata_file_suffix) = 25
   \<and> ((withPadding v @ metadata_file_suffix < withPadding w @ metadata_file_suffix) = (v < w))"
proof -
  have pad: "\<And>u :: 64 word. withPadding u = replicate (20 - length (toString (unat u))) CHR ''0'' @ toString (unat u)"
    by (simp add: withPadding_def Let_def)
  have len: "\<And>u :: 64 word. length (withPadding u) = 20"
    using length_toString_unat by (simp add: pad)
  have num: "\<And>u :: 64 word. \<forall>c \<in> set (withPadding u). isNumericASCII c"
    using toString_numeric by (auto simp: pad isNumericASCII_def)
  have val: "\<And>u :: 64 word. dec_value (withPadding u) = unat u"
    by (simp add: pad dec_value_replicate0 dec_value_toString)
  have "unat v < 2 ^ 64" using unsigned_less[of v] by simp
  also have "(2::nat) ^ 64 < 10 ^ 20" by simp
  finally have bound: "unat v < 10 ^ 20" .
  have "(withPadding v @ metadata_file_suffix < withPadding w @ metadata_file_suffix)
          = (withPadding v < withPadding w)"
    by (rule append_same_less) (simp add: len)
  also have "\<dots> = (dec_value (withPadding v) < dec_value (withPadding w))"
    by (rule fixed_width_less) (simp_all add: len num)
  also have "\<dots> = (v < w)"
    by (simp add: val word_less_nat_alt)
  finally have ord: "(withPadding v @ metadata_file_suffix < withPadding w @ metadata_file_suffix) = (v < w)" .
  show ?thesis
    using length_toString_unat[of v] bound ord
    by (simp add: pad dec_value_toString metadata_file_suffix_def)
qed

theorem withPadding_law_witness:
  "withPadding 11 @ metadata_file_suffix = ''00000000000000000011.json''
   \<and> withPadding 11 @ metadata_file_suffix < withPadding 12 @ metadata_file_suffix"
proof -
  have a: "toString 11 = ''11''" by code_simp
  have b: "replicate 18 CHR ''0'' = ''000000000000000000''" by code_simp
  note law = withPadding_law [of 11 12]
  from law have "withPadding 11 @ metadata_file_suffix =
     replicate (20 - length (toString (unat (11 :: 64 word)))) CHR ''0'' @ toString (unat (11 :: 64 word)) @ ''.json''"
    by (rule conjunct1)
  then have 1: "withPadding 11 @ metadata_file_suffix = ''00000000000000000011.json''"
    by (simp add: a b)
  from law have "(withPadding 11 @ metadata_file_suffix < withPadding 12 @ metadata_file_suffix)
      = ((11 :: 64 word) < 12)"
    by blast
  then have 2: "withPadding 11 @ metadata_file_suffix < withPadding 12 @ metadata_file_suffix"
    by simp
  from 1 2 show ?thesis by (rule conjI)
qed

subsection \<open>Add and remove\<close>

text \<open>
  C6. An object with a \<^verbatim>\<open>remove\<close> key and no \<^verbatim>\<open>add\<close> key, whose path under the root is not in the
  set of files, leaves the set as it was; without a \<^verbatim>\<open>metaData\<close> key it leaves the whole state
  as it was, and it does not fail.
\<close>

theorem remove_absent_noop:
  assumes "add_key object = None" and "remove_key object = Some p"
    and "path_append configuration_path p \<notin> result st"
  shows "(metaData_key object = None \<longrightarrow> process_object env configuration_path object st = Inr st)
       \<and> (\<forall>st'. process_object env configuration_path object st = Inr st' \<longrightarrow> result st' = result st)"
  using assms
  by (auto simp: process_object_def process_add_remove_def process_metaData_def
           split: option.splits sum.splits if_splits)

theorem remove_absent_noop_witness:
  "process_object example_helpers ''r'' (remove_object ''a'') empty_state = Inr empty_state"
  using remove_absent_noop [of "remove_object ''a''" "''a''" "''r''" empty_state example_helpers]
  by (simp add: remove_object_def empty_state_def)

lemma process_add_remove_add_result:
  "add_key object = Some a \<Longrightarrow> process_add_remove env configuration_path object st = Inr st'
   \<Longrightarrow> result st' = insert (path_append configuration_path (add_path a)) (result st)
       \<and> file_schema st' = file_schema st"
  by (auto simp: process_add_remove_def Let_def split: option.splits sum.splits if_splits)

lemma process_metaData_result:
  "process_metaData env object st = Inr st' \<Longrightarrow>
     result st' = result st \<and> file_partition_columns st' = file_partition_columns st"
  by (auto simp: process_metaData_def split: option.splits sum.splits if_splits)

lemma process_object_add_result:
  "add_key object = Some a \<Longrightarrow> process_object env configuration_path object st = Inr st'
   \<Longrightarrow> result st' = insert (path_append configuration_path (add_path a)) (result st)"
  by (auto simp: process_object_def split: sum.splits
           dest: process_add_remove_add_result process_metaData_result)

lemma process_object_add_no_partitions:
  "process_object env configuration_path (add_object p []) st =
     Inr (st\<lparr>result := insert (path_append configuration_path p) (result st)\<rparr>)"
  by (simp add: process_object_def process_add_remove_def process_metaData_def add_object_def Let_def
           split: option.splits)

lemma process_object_remove:
  "process_object env configuration_path (remove_object p) st =
     Inr (st\<lparr>result := result st - {path_append configuration_path p}\<rparr>)"
  by (simp add: process_object_def process_add_remove_def process_metaData_def remove_object_def)

text \<open>
  C7. After \<open>Add(p)\<close>, \<open>Remove(p)\<close>, \<open>Add(p)\<close>, whatever the partition values of the two adds, a state
  that is returned has the path of \<open>p\<close> under the root in its set of files; and with no partition
  values a state is returned.
\<close>

theorem reinstatement:
  "(\<forall>st'. process_objects env configuration_path
            [add_object p values1, remove_object p, add_object p values2] st = Inr st'
          \<longrightarrow> path_append configuration_path p \<in> result st')
   \<and> (\<exists>st'. process_objects env configuration_path
            [add_object p [], remove_object p, add_object p []] st = Inr st'
          \<and> path_append configuration_path p \<in> result st')"
proof (intro conjI allI impI)
  fix st'
  assume "process_objects env configuration_path
            [add_object p values1, remove_object p, add_object p values2] st = Inr st'"
  then obtain st2 where "process_object env configuration_path (add_object p values2) st2 = Inr st'"
    by (auto split: sum.splits)
  then have "result st' = insert (path_append configuration_path p) (result st2)"
    using process_object_add_result[of "add_object p values2"] by (simp add: add_object_def)
  then show "path_append configuration_path p \<in> result st'" by simp
next
  show "\<exists>st'. process_objects env configuration_path
            [add_object p [], remove_object p, add_object p []] st = Inr st'
          \<and> path_append configuration_path p \<in> result st'"
    by (simp add: process_object_add_no_partitions process_object_remove)
qed

theorem reinstatement_witness:
  "map_sum id result (process_objects example_helpers ''r''
            [add_object ''a'' [], remove_object ''a'', add_object ''a'' []] empty_state) = Inr {''r/a''}"
proof -
  from reinstatement [of example_helpers "''r''" "''a''" "[]" "[]" empty_state]
  have "\<forall>st'. process_objects example_helpers ''r''
            [add_object ''a'' [], remove_object ''a'', add_object ''a'' []] empty_state = Inr st'
          \<longrightarrow> path_append ''r'' ''a'' \<in> result st'" by blast
  then show ?thesis
    by (simp add: process_object_add_no_partitions process_object_remove empty_state_def path_append_def)
qed

subsection \<open>The keys of an object\<close>

lemma getSimple_long: "getSimpleTypeByName env ''long'' = Inr DataTypeInt64"
  by (simp add: getSimpleTypeByName_def)

lemma schema_long_field: "schema_fields_loop env [long_field n] = Inr [(n, DataTypeInt64)]"
  by (simp add: long_field_def getSimple_long)

lemma process_add_remove_schema:
  "process_add_remove env configuration_path object st = Inr st' \<Longrightarrow> file_schema st' = file_schema st"
  by (auto simp: process_add_remove_def Let_def split: option.splits sum.splits if_splits)

lemma process_add_remove_result:
  "process_add_remove env configuration_path object st = Inr st' \<Longrightarrow>
     result st' =
       (case add_key object of
          Some a \<Rightarrow> insert (path_append configuration_path (add_path a)) (result st)
        | None \<Rightarrow> (case remove_key object of
                     Some p \<Rightarrow> result st - {path_append configuration_path p}
                   | None \<Rightarrow> result st))"
  by (auto simp: process_add_remove_def Let_def split: option.splits sum.splits if_splits)

lemma process_metaData_schema:
  "process_metaData env object st = Inr st' \<Longrightarrow>
     (case metaData_key object of
        Some schema_fields \<Rightarrow> schema_fields_loop env schema_fields = Inr (file_schema st')
      | None \<Rightarrow> file_schema st' = file_schema st)"
  by (auto simp: process_metaData_def split: option.splits sum.splits if_splits)

lemma all_keys_object_run:
  "process_object example_helpers ''r'' all_keys_object
     \<lparr>result = {''r/b''}, file_schema = [], file_partition_columns = Map.empty\<rparr>
   = Inr \<lparr>result = {''r/a'', ''r/b''}, file_schema = [(''x'', DataTypeInt64)],
          file_partition_columns = Map.empty\<rparr>"
  by (simp add: process_object_def process_add_remove_def process_metaData_def
        all_keys_object_def path_append_def Let_def filename_def long_field_def getSimple_long)

text \<open>
  C1, as the claim states it, fails: the object \<^verbatim>\<open>{"add":{"path":"a",...},"remove":{"path":"b"}}\<close>
  applied to a state whose set of files is \<open>{r/b}\<close> leaves \<open>r/b\<close> in the set. The \<^verbatim>\<open>remove\<close> key
  is tested in the \<^verbatim>\<open>else\<close> branch of the test of the \<^verbatim>\<open>add\<close> key.
\<close>

theorem add_and_remove_counterexample:
  "map_sum id result
     (process_object example_helpers ''r'' (add_and_remove_object ''a'' ''b'')
        \<lparr>result = {''r/b''}, file_schema = [], file_partition_columns = Map.empty\<rparr>)
     = Inr {''r/a'', ''r/b''}
   \<and> path_append ''r'' ''b'' = ''r/b''"
  by (simp add: process_object_def process_add_remove_def process_metaData_def
        add_and_remove_object_def path_append_def Let_def filename_def)

text \<open>
  C1, amended. When an object is applied without failure: if it has an \<^verbatim>\<open>add\<close> key, the path of
  the add is inserted into the set of files and nothing is removed, whether or not the object
  has a \<^verbatim>\<open>remove\<close> key; if it has a \<^verbatim>\<open>remove\<close> key and no \<^verbatim>\<open>add\<close> key, the path of the remove is
  taken out of the set; if it has a \<^verbatim>\<open>metaData\<close> key, with or without the other keys, the
  schema afterwards is the schema of its fields.
\<close>

theorem object_keys:
  "process_object env configuration_path object st = Inr st' \<longrightarrow>
     (\<forall>a. add_key object = Some a \<longrightarrow>
        result st' = insert (path_append configuration_path (add_path a)) (result st))
   \<and> (\<forall>p. add_key object = None \<and> remove_key object = Some p \<longrightarrow>
        result st' = result st - {path_append configuration_path p})
   \<and> (add_key object = None \<and> remove_key object = None \<longrightarrow> result st' = result st)
   \<and> (\<forall>schema_fields. metaData_key object = Some schema_fields \<longrightarrow>
        schema_fields_loop env schema_fields = Inr (file_schema st'))
   \<and> (metaData_key object = None \<longrightarrow> file_schema st' = file_schema st)"
proof
  assume "process_object env configuration_path object st = Inr st'"
  then obtain st1 where 1: "process_add_remove env configuration_path object st = Inr st1"
    and 2: "process_metaData env object st1 = Inr st'"
    by (auto simp: process_object_def split: sum.splits)
  from process_add_remove_result[OF 1] process_add_remove_schema[OF 1]
       process_metaData_result[OF 2] process_metaData_schema[OF 2]
  show "(\<forall>a. add_key object = Some a \<longrightarrow>
        result st' = insert (path_append configuration_path (add_path a)) (result st))
   \<and> (\<forall>p. add_key object = None \<and> remove_key object = Some p \<longrightarrow>
        result st' = result st - {path_append configuration_path p})
   \<and> (add_key object = None \<and> remove_key object = None \<longrightarrow> result st' = result st)
   \<and> (\<forall>schema_fields. metaData_key object = Some schema_fields \<longrightarrow>
        schema_fields_loop env schema_fields = Inr (file_schema st'))
   \<and> (metaData_key object = None \<longrightarrow> file_schema st' = file_schema st)"
    by auto
qed

theorem object_keys_witness:
  "process_object example_helpers ''r'' all_keys_object
     \<lparr>result = {''r/b''}, file_schema = [], file_partition_columns = Map.empty\<rparr>
   = Inr \<lparr>result = {''r/a'', ''r/b''}, file_schema = [(''x'', DataTypeInt64)],
          file_partition_columns = Map.empty\<rparr>
   \<and> result \<lparr>result = {''r/a'', ''r/b''}, file_schema = [(''x'', DataTypeInt64)],
          file_partition_columns = Map.empty\<rparr> = insert (path_append ''r'' ''a'') {''r/b''}
   \<and> schema_fields_loop example_helpers [long_field ''x''] = Inr [(''x'', DataTypeInt64)]"
  using all_keys_object_run
    object_keys [of example_helpers "''r''" all_keys_object
       "\<lparr>result = {''r/b''}, file_schema = [], file_partition_columns = Map.empty\<rparr>"
       "\<lparr>result = {''r/a'', ''r/b''}, file_schema = [(''x'', DataTypeInt64)],
          file_partition_columns = Map.empty\<rparr>"]
  by (simp add: all_keys_object_def long_field_def getSimple_long)

subsection \<open>The frame of a remove\<close>

lemma removed_file_storage_checkpoint:
  "getCheckpointIfExists removed_file_storage ''r'' {} =
     ([Exists ''r/_delta_log/_last_checkpoint''], Inr ({}, 0))"
  by (simp add: getCheckpointIfExists_def readLastCheckpointIfExists_def
      removed_file_storage_def path_append_def deltalake_metadata_directory_def)

lemma removed_file_storage_file:
  "processMetadataFile example_helpers removed_file_storage ''r''
     ''r/_delta_log/00000000000000000000.json'' empty_state
   = Inr \<lparr>result = {}, file_schema = [(''v'', DataTypeInt64)],
           file_partition_columns = [''f.parquet'' \<mapsto> [((''v'', DataTypeInt64), Field_Int64 7)]]\<rparr>"
  by (simp add: removed_file_storage_def processMetadataFile_def metaData_object_def
      add_object_def remove_object_def long_field_def process_object_def process_add_remove_def
      process_metaData_def getSimple_long empty_state_def path_append_def filename_def
      tryGetByName_def getFieldValue_def example_helpers_def Let_def)

lemma removed_file_storage_keys:
  "listFiles removed_file_storage = [''r/_delta_log/00000000000000000000.json'']"
  by (simp add: removed_file_storage_def)

lemma removed_file_storage_metadata:
  "processMetadataFiles example_helpers removed_file_storage ''r''
   = Some ([Exists ''r/_delta_log/_last_checkpoint'', ListFiles,
            CreateReadBuffer ''r/_delta_log/00000000000000000000.json''],
           Inr (make_metadata
                  \<lparr>result = {}, file_schema = [(''v'', DataTypeInt64)],
                   file_partition_columns =
                     [''f.parquet'' \<mapsto> [((''v'', DataTypeInt64), Field_Int64 7)]]\<rparr>))"
  using removed_file_storage_file
  by (simp add: processMetadataFiles_def removed_file_storage_checkpoint
      removed_file_storage_keys empty_state_def)

lemma removed_file_storage_run:
  "map_option (map_prod id (map_sum id (\<lambda>md. (data_files md, partition_columns md ''f.parquet''))))
     (processMetadataFiles example_helpers removed_file_storage ''r'')
   = Some ([Exists ''r/_delta_log/_last_checkpoint'', ListFiles,
            CreateReadBuffer ''r/_delta_log/00000000000000000000.json''],
           Inr ([], Some [((''v'', DataTypeInt64), Field_Int64 7)]))"
  by (simp add: removed_file_storage_metadata make_metadata_def)

lemma process_add_remove_remove: "add_key object = None \<Longrightarrow> remove_key object = Some p \<Longrightarrow>
   process_add_remove env configuration_path object st = Inr (st\<lparr>result := result st - {path_append configuration_path p}\<rparr>)"
  by (simp add: process_add_remove_def)

lemma remove_frame_object:
  assumes "add_key object = None" "remove_key object = Some p"
  shows "(metaData_key object = None \<longrightarrow>
         process_object env configuration_path object st =
           Inr (st\<lparr>result := result st - {path_append configuration_path p}\<rparr>))
      \<and> (\<forall>st'. process_object env configuration_path object st = Inr st' \<longrightarrow>
            result st' = result st - {path_append configuration_path p}
            \<and> file_partition_columns st' = file_partition_columns st
            \<and> (metaData_key object = None \<longrightarrow> file_schema st' = file_schema st))"
proof (intro conjI impI allI)
  assume "metaData_key object = None"
  then show "process_object env configuration_path object st =
           Inr (st\<lparr>result := result st - {path_append configuration_path p}\<rparr>)"
    by (simp add: process_object_def process_add_remove_remove[OF assms] process_metaData_def)
next
  fix st' assume a: "process_object env configuration_path object st = Inr st'"
  then have m: "process_metaData env object (st\<lparr>result := result st - {path_append configuration_path p}\<rparr>) = Inr st'"
    by (simp add: process_object_def process_add_remove_remove[OF assms])
  from process_metaData_result[OF m]
  show "result st' = result st - {path_append configuration_path p}" 
    and "file_partition_columns st' = file_partition_columns st" by simp_all
  assume "metaData_key object = None"
  with process_metaData_schema[OF m] show "file_schema st' = file_schema st" by simp
qed

text \<open>
  C10. An object with a \<^verbatim>\<open>remove\<close> key and no \<^verbatim>\<open>add\<close> key changes the set of files only: the
  partition columns are as before, and so is the schema unless the object has a \<^verbatim>\<open>metaData\<close>
  key. So the metadata returned can have partition columns for a file name whose file is not
  among the data files: in the store \<open>removed_file_storage\<close> the data files are empty and
  \<^verbatim>\<open>f.parquet\<close> has its partition column.
\<close>

theorem remove_frame:
  "(add_key object = None \<and> remove_key object = Some p \<longrightarrow>
      (metaData_key object = None \<longrightarrow>
         process_object env configuration_path object st =
           Inr (st\<lparr>result := result st - {path_append configuration_path p}\<rparr>))
      \<and> (\<forall>st'. process_object env configuration_path object st = Inr st' \<longrightarrow>
            result st' = result st - {path_append configuration_path p}
            \<and> file_partition_columns st' = file_partition_columns st
            \<and> (metaData_key object = None \<longrightarrow> file_schema st' = file_schema st)))
   \<and> map_option (map_prod id (map_sum id (\<lambda>md. (data_files md, partition_columns md ''f.parquet''))))
         (processMetadataFiles example_helpers removed_file_storage ''r'')
      = Some ([Exists ''r/_delta_log/_last_checkpoint'', ListFiles,
               CreateReadBuffer ''r/_delta_log/00000000000000000000.json''],
              Inr ([], Some [((''v'', DataTypeInt64), Field_Int64 7)]))"
proof -
  have "add_key object = None \<and> remove_key object = Some p \<longrightarrow>
      (metaData_key object = None \<longrightarrow>
         process_object env configuration_path object st =
           Inr (st\<lparr>result := result st - {path_append configuration_path p}\<rparr>))
      \<and> (\<forall>st'. process_object env configuration_path object st = Inr st' \<longrightarrow>
            result st' = result st - {path_append configuration_path p}
            \<and> file_partition_columns st' = file_partition_columns st
            \<and> (metaData_key object = None \<longrightarrow> file_schema st' = file_schema st))"
    using remove_frame_object[of object p env configuration_path st] by blast
  then show ?thesis using removed_file_storage_run by (rule conjI)
qed

theorem remove_frame_witness:
  "process_object example_helpers ''r'' (remove_object ''a'')
     \<lparr>result = {''r/a'', ''r/b''}, file_schema = [], file_partition_columns = Map.empty\<rparr>
   = Inr \<lparr>result = {''r/b''}, file_schema = [], file_partition_columns = Map.empty\<rparr>"
proof -
  have "{''r/a'', ''r/b''} - {''r/a''} = {''r/b''}" by auto
  then show ?thesis
    using remove_frame [of "remove_object ''a''" "''a''" example_helpers "''r''"
        "\<lparr>result = {''r/a'', ''r/b''}, file_schema = [], file_partition_columns = Map.empty\<rparr>"]
    by (simp add: remove_object_def path_append_def)
qed

subsection \<open>Partition values of an add\<close>

lemma partition_values_loop_typed_values:
  "partition_values_loop env sch pairs current =
     (case typed_values env sch pairs of Inl e \<Rightarrow> Inl e | Inr columns \<Rightarrow> Inr (current @ columns))"
proof (induction pairs arbitrary: current)
  case Nil
  then show ?case by (simp add: typed_values_def)
next
  case (Cons pair pairs)
  obtain name val where pair: "pair = (name, val)" by (cases pair)
  show ?case
  proof (cases "typed_value env sch pair")
    case (Inl e)
    then show ?thesis
      by (auto simp: pair typed_values_def typed_value_def split: option.splits sum.splits)
  next
    case (Inr column)
    then show ?thesis
      using Cons.IH[of "current @ [column]"]
      by (auto simp: pair typed_values_def typed_value_def split: option.splits sum.splits)
  qed
qed

lemma typed_values_Cons:
  "typed_values env sch (pair # pairs) =
     (case typed_value env sch pair of
        Inl e \<Rightarrow> Inl e
      | Inr column \<Rightarrow>
          (case typed_values env sch pairs of Inl e \<Rightarrow> Inl e | Inr columns \<Rightarrow> Inr (column # columns)))"
  by (auto simp: typed_values_def split: sum.splits option.splits)

lemma typed_values_first_error:
  "typed_values env sch pairs = Inl e \<longleftrightarrow>
     (\<exists>before pair rest. pairs = before @ pair # rest
        \<and> (\<forall>q \<in> set before. \<not> isl (typed_value env sch q))
        \<and> typed_value env sch pair = Inl e)"
proof (induction pairs)
  case Nil
  then show ?case by (simp add: typed_values_def)
next
  case (Cons p pairs)
  show ?case
  proof (cases "typed_value env sch p")
    case (Inl e')
    have l: "typed_values env sch (p # pairs) = Inl e'"
      using Inl by (simp add: typed_values_Cons)
    show ?thesis
    proof
      assume "typed_values env sch (p # pairs) = Inl e"
      with l Inl have "p # pairs = [] @ p # pairs \<and> (\<forall>q \<in> set []. \<not> isl (typed_value env sch q))
          \<and> typed_value env sch p = Inl e" by simp
      then show "\<exists>before pair rest. p # pairs = before @ pair # rest
        \<and> (\<forall>q \<in> set before. \<not> isl (typed_value env sch q))
        \<and> typed_value env sch pair = Inl e" by blast
    next
      assume "\<exists>before pair rest. p # pairs = before @ pair # rest
        \<and> (\<forall>q \<in> set before. \<not> isl (typed_value env sch q))
        \<and> typed_value env sch pair = Inl e"
      then obtain before pair rest where b: "p # pairs = before @ pair # rest"
        "\<forall>q \<in> set before. \<not> isl (typed_value env sch q)" "typed_value env sch pair = Inl e"
        by blast
      have "before = []"
      proof (cases before)
        case Nil then show ?thesis .
      next
        case (Cons q qs)
        with b(1) have "q = p" by simp
        with b(2) Cons Inl show ?thesis by simp
      qed
      with b(1) have "pair = p" by simp
      with b(3) Inl l show "typed_values env sch (p # pairs) = Inl e" by simp
    qed
  next
    case (Inr column)
    have l: "typed_values env sch (p # pairs) = Inl e \<longleftrightarrow> typed_values env sch pairs = Inl e"
      using Inr by (simp add: typed_values_Cons split: sum.splits)
    have "(\<exists>before pair rest. p # pairs = before @ pair # rest
        \<and> (\<forall>q \<in> set before. \<not> isl (typed_value env sch q))
        \<and> typed_value env sch pair = Inl e)
      \<longleftrightarrow> (\<exists>before pair rest. pairs = before @ pair # rest
        \<and> (\<forall>q \<in> set before. \<not> isl (typed_value env sch q))
        \<and> typed_value env sch pair = Inl e)" (is "?L \<longleftrightarrow> ?R")
    proof
      assume ?L
      then obtain before pair rest where b: "p # pairs = before @ pair # rest"
        "\<forall>q \<in> set before. \<not> isl (typed_value env sch q)" "typed_value env sch pair = Inl e"
        by blast
      show ?R
      proof (cases before)
        case Nil
        with b(1) have "pair = p" by simp
        with b(3) Inr show ?thesis by simp
      next
        case (Cons q qs)
        with b have "pairs = qs @ pair # rest \<and> (\<forall>q \<in> set qs. \<not> isl (typed_value env sch q))
           \<and> typed_value env sch pair = Inl e" by simp
        then show ?thesis by blast
      qed
    next
      assume ?R
      then obtain before pair rest where b: "pairs = before @ pair # rest"
        "\<forall>q \<in> set before. \<not> isl (typed_value env sch q)" "typed_value env sch pair = Inl e"
        by blast
      with Inr have "p # pairs = (p # before) @ pair # rest
           \<and> (\<forall>q \<in> set (p # before). \<not> isl (typed_value env sch q))
           \<and> typed_value env sch pair = Inl e" by simp
      then show ?L by blast
    qed
    with l Cons.IH show ?thesis by simp
  qed
qed

lemma typed_values_Inr:
  "typed_values env sch pairs = Inr columns \<longleftrightarrow>
     (\<forall>q \<in> set pairs. \<not> isl (typed_value env sch q))
     \<and> columns = map (\<lambda>pair. projr (typed_value env sch pair)) pairs"
proof -
  have n: "find isl (map (typed_value env sch) pairs) = None
             \<longleftrightarrow> (\<forall>q \<in> set pairs. \<not> isl (typed_value env sch q))"
    by (auto simp: find_None_iff)
  show ?thesis
  proof (cases "find isl (map (typed_value env sch) pairs)")
    case None
    with n show ?thesis by (auto simp: typed_values_def)
  next
    case (Some r)
    with n have "\<not> (\<forall>q \<in> set pairs. \<not> isl (typed_value env sch q))" by simp
    with Some show ?thesis by (simp add: typed_values_def)
  qed
qed

lemma typed_value_cases:
  "typed_value env sch (name, val) =
     (case tryGetByName sch name of
        None \<Rightarrow> Inl LOGICAL_ERROR
      | Some name_and_type \<Rightarrow>
          (case getFieldValue env val (snd name_and_type) of
             Inl e \<Rightarrow> Inl e
           | Inr field \<Rightarrow> Inr (name_and_type, field)))"
  by (simp add: typed_value_def split: option.splits)

lemma process_add_remove_add:
  assumes "add_key object = Some a"
  shows "process_add_remove env configuration_path object st =
     (if file_partition_columns st (filename (add_path a)) \<noteq> None \<or> partitionValues a = []
      then Inr (st\<lparr>result := insert (path_append configuration_path (add_path a)) (result st)\<rparr>)
      else case typed_values env (file_schema st) (partitionValues a) of
             Inl e \<Rightarrow> Inl e
           | Inr columns \<Rightarrow>
               Inr (st\<lparr>result := insert (path_append configuration_path (add_path a)) (result st),
                        file_partition_columns :=
                          (file_partition_columns st)(filename (add_path a) \<mapsto> columns)\<rparr>))"
  using assms
  by (simp add: process_add_remove_def Let_def partition_values_loop_typed_values
        split: option.splits sum.splits)

lemma process_metaData_None:
  "metaData_key object = None \<Longrightarrow> process_metaData env object st = Inr st"
  by (simp add: process_metaData_def)


lemma example_typed_values:
  "typed_values example_helpers [(''v'', DataTypeInt64)] [(''v'', ''7'')]
     = Inr [((''v'', DataTypeInt64), Field_Int64 7)]"
  by (simp add: typed_values_def typed_value_def tryGetByName_def getFieldValue_def
        example_helpers_def Let_def)

lemma example_typed_values_absent:
  "typed_values example_helpers [(''v'', DataTypeInt64)] [(''w'', ''1'')] = Inl LOGICAL_ERROR"
  by (simp add: typed_values_def typed_value_def tryGetByName_def)

text \<open>
  C9, as the claim states it, fails: with the schema \<open>a decimal(10,2)\<close> and the partition values
  \<open>a = 1, b = 2\<close> the name \<open>b\<close> is absent from the schema, and the add fails with
  \<open>BAD_ARGUMENTS\<close>, not with \<open>LOGICAL_ERROR\<close>: the value of \<open>a\<close> is converted first, and
  \<^verbatim>\<open>getFieldValue\<close> does not support its type.
\<close>

theorem unknown_partition_name_counterexample:
  "process_object example_helpers ''r'' (add_object ''f'' [(''a'', ''1''), (''b'', ''2'')])
     \<lparr>result = {}, file_schema = [(''a'', DataTypeDecimal 10 2)], file_partition_columns = Map.empty\<rparr>
   = Inl BAD_ARGUMENTS
   \<and> tryGetByName [(''a'', DataTypeDecimal 10 2)] ''b'' = None"
  by (simp add: process_object_def process_add_remove_def process_metaData_def Let_def add_object_def
        filename_def tryGetByName_def getFieldValue_def)

text \<open>
  C9, amended. For an object with an \<^verbatim>\<open>add\<close> key, with or without a \<^verbatim>\<open>metaData\<close> key. If the file
  name has partition columns already, or the partition values are empty, the partition columns
  are unchanged. Otherwise the typed value of each pair is computed from the type that the
  current schema has for the name, in the order of the pairs: if one of them fails, the object
  fails with that error; if the object is applied, every pair has a typed value and the list of
  them is the partition columns of the file name. The error is that of the first pair that
  fails: \<open>LOGICAL_ERROR\<close> if its name is absent from the schema, otherwise the error that
  \<^verbatim>\<open>getFieldValue\<close> throws for its value. When no pair fails, the \<^verbatim>\<open>metaData\<close> of the object, if
  it has one, is applied to the state that the add leaves; without a \<^verbatim>\<open>metaData\<close> key the object
  is applied.
\<close>

theorem add_partition_values:
  assumes "add_key object = Some a"
  shows "(file_partition_columns st (filename (add_path a)) \<noteq> None \<or> partitionValues a = [] \<longrightarrow>
            (\<forall>st'. process_object env configuration_path object st = Inr st' \<longrightarrow>
                file_partition_columns st' = file_partition_columns st)
            \<and> process_object env configuration_path object st =
                  process_metaData env object
                    (st\<lparr>result := insert (path_append configuration_path (add_path a)) (result st)\<rparr>)
            \<and> (metaData_key object = None \<longrightarrow>
                 process_object env configuration_path object st =
                   Inr (st\<lparr>result := insert (path_append configuration_path (add_path a)) (result st)\<rparr>)))
       \<and> (file_partition_columns st (filename (add_path a)) = None \<and> partitionValues a \<noteq> [] \<longrightarrow>
            (\<forall>e. typed_values env (file_schema st) (partitionValues a) = Inl e \<longrightarrow>
                process_object env configuration_path object st = Inl e)
            \<and> (\<forall>st'. process_object env configuration_path object st = Inr st' \<longrightarrow>
                  (\<forall>pair \<in> set (partitionValues a). \<not> isl (typed_value env (file_schema st) pair))
                  \<and> file_partition_columns st' =
                      (file_partition_columns st)(filename (add_path a) \<mapsto>
                         map (\<lambda>pair. projr (typed_value env (file_schema st) pair)) (partitionValues a)))
            \<and> (\<forall>columns. typed_values env (file_schema st) (partitionValues a) = Inr columns \<longrightarrow>
                  process_object env configuration_path object st =
                    process_metaData env object
                      (st\<lparr>result := insert (path_append configuration_path (add_path a)) (result st),
                          file_partition_columns :=
                            (file_partition_columns st)(filename (add_path a) \<mapsto> columns)\<rparr>))
            \<and> (metaData_key object = None \<longrightarrow>
                 (\<forall>columns. typed_values env (file_schema st) (partitionValues a) = Inr columns \<longrightarrow>
                    process_object env configuration_path object st =
                      Inr (st\<lparr>result := insert (path_append configuration_path (add_path a)) (result st),
                               file_partition_columns :=
                                 (file_partition_columns st)(filename (add_path a) \<mapsto> columns)\<rparr>))))
       \<and> (\<forall>e. (typed_values env (file_schema st) (partitionValues a) = Inl e) =
                (\<exists>before name val rest.
                    partitionValues a = before @ (name, val) # rest
                    \<and> (\<forall>pair \<in> set before. \<not> isl (typed_value env (file_schema st) pair))
                    \<and> (case tryGetByName (file_schema st) name of
                          None \<Rightarrow> e = LOGICAL_ERROR
                        | Some name_and_type \<Rightarrow> getFieldValue env val (snd name_and_type) = Inl e)))"
proof (intro conjI impI allI)
  fix st'
  assume c: "file_partition_columns st (filename (add_path a)) \<noteq> None \<or> partitionValues a = []"
    and r: "process_object env configuration_path object st = Inr st'"
  from r obtain st1 where 1: "process_add_remove env configuration_path object st = Inr st1"
    and 2: "process_metaData env object st1 = Inr st'"
    by (auto simp: process_object_def split: sum.splits)
  from 1 c have "file_partition_columns st1 = file_partition_columns st"
    by (auto simp: process_add_remove_add[OF assms])
  with process_metaData_result[OF 2]
  show "file_partition_columns st' = file_partition_columns st" by simp
next
  assume "file_partition_columns st (filename (add_path a)) \<noteq> None \<or> partitionValues a = []"
  then show "process_object env configuration_path object st =
                  process_metaData env object
                    (st\<lparr>result := insert (path_append configuration_path (add_path a)) (result st)\<rparr>)"
    by (auto simp: process_object_def process_add_remove_add[OF assms])
next
  assume "file_partition_columns st (filename (add_path a)) \<noteq> None \<or> partitionValues a = []"
    and "metaData_key object = None"
  then show "process_object env configuration_path object st =
                   Inr (st\<lparr>result := insert (path_append configuration_path (add_path a)) (result st)\<rparr>)"
    by (auto simp: process_object_def process_add_remove_add[OF assms] process_metaData_None)
next
  fix e
  assume "file_partition_columns st (filename (add_path a)) = None \<and> partitionValues a \<noteq> []"
    and "typed_values env (file_schema st) (partitionValues a) = Inl e"
  then show "process_object env configuration_path object st = Inl e"
    by (simp add: process_object_def process_add_remove_add[OF assms])
next
  fix st'
  assume c: "file_partition_columns st (filename (add_path a)) = None \<and> partitionValues a \<noteq> []"
    and r: "process_object env configuration_path object st = Inr st'"
  from r obtain st1 where 1: "process_add_remove env configuration_path object st = Inr st1"
    and 2: "process_metaData env object st1 = Inr st'"
    by (auto simp: process_object_def split: sum.splits)
  from 1 c obtain columns where t: "typed_values env (file_schema st) (partitionValues a) = Inr columns"
    and f: "file_partition_columns st1 = (file_partition_columns st)(filename (add_path a) \<mapsto> columns)"
    by (auto simp: process_add_remove_add[OF assms] split: sum.splits)
  from t have ok: "\<forall>pair \<in> set (partitionValues a). \<not> isl (typed_value env (file_schema st) pair)"
    and cols: "columns = map (\<lambda>pair. projr (typed_value env (file_schema st) pair)) (partitionValues a)"
    by (simp_all add: typed_values_Inr)
  from ok show "\<forall>pair \<in> set (partitionValues a). \<not> isl (typed_value env (file_schema st) pair)" .
  from f cols process_metaData_result[OF 2]
  show "file_partition_columns st' =
          (file_partition_columns st)(filename (add_path a) \<mapsto>
             map (\<lambda>pair. projr (typed_value env (file_schema st) pair)) (partitionValues a))"
    by simp
next
  fix columns
  assume "file_partition_columns st (filename (add_path a)) = None \<and> partitionValues a \<noteq> []"
    and "typed_values env (file_schema st) (partitionValues a) = Inr columns"
  then show "process_object env configuration_path object st =
                    process_metaData env object
                      (st\<lparr>result := insert (path_append configuration_path (add_path a)) (result st),
                          file_partition_columns :=
                            (file_partition_columns st)(filename (add_path a) \<mapsto> columns)\<rparr>)"
    by (simp add: process_object_def process_add_remove_add[OF assms])
next
  fix columns
  assume "file_partition_columns st (filename (add_path a)) = None \<and> partitionValues a \<noteq> []"
    and "metaData_key object = None"
    and "typed_values env (file_schema st) (partitionValues a) = Inr columns"
  then show "process_object env configuration_path object st =
                      Inr (st\<lparr>result := insert (path_append configuration_path (add_path a)) (result st),
                               file_partition_columns :=
                                 (file_partition_columns st)(filename (add_path a) \<mapsto> columns)\<rparr>)"
    by (simp add: process_object_def process_add_remove_add[OF assms] process_metaData_None)
next
  fix e
  have "(\<exists>before pair rest. partitionValues a = before @ pair # rest
          \<and> (\<forall>q \<in> set before. \<not> isl (typed_value env (file_schema st) q))
          \<and> typed_value env (file_schema st) pair = Inl e)
      = (\<exists>before name val rest.
                    partitionValues a = before @ (name, val) # rest
                    \<and> (\<forall>pair \<in> set before. \<not> isl (typed_value env (file_schema st) pair))
                    \<and> (case tryGetByName (file_schema st) name of
                          None \<Rightarrow> e = LOGICAL_ERROR
                        | Some name_and_type \<Rightarrow> getFieldValue env val (snd name_and_type) = Inl e))"
    (is "?L = ?R")
  proof
    assume ?L
    then obtain before pair rest where b: "partitionValues a = before @ pair # rest"
      "\<forall>q \<in> set before. \<not> isl (typed_value env (file_schema st) q)"
      "typed_value env (file_schema st) pair = Inl e" by blast
    obtain name val where p: "pair = (name, val)" by (cases pair)
    from b(3) have "case tryGetByName (file_schema st) name of
                          None \<Rightarrow> e = LOGICAL_ERROR
                        | Some name_and_type \<Rightarrow> getFieldValue env val (snd name_and_type) = Inl e"
      by (auto simp: p typed_value_cases split: option.splits sum.splits)
    with b(1,2) p show ?R by blast
  next
    assume ?R
    then obtain before name val rest where b: "partitionValues a = before @ (name, val) # rest"
      "\<forall>q \<in> set before. \<not> isl (typed_value env (file_schema st) q)"
      "case tryGetByName (file_schema st) name of
                          None \<Rightarrow> e = LOGICAL_ERROR
                        | Some name_and_type \<Rightarrow> getFieldValue env val (snd name_and_type) = Inl e"
      by blast
    from b(3) have "typed_value env (file_schema st) (name, val) = Inl e"
      by (auto simp: typed_value_cases split: option.splits)
    with b(1,2) show ?L by blast
  qed
  then show "(typed_values env (file_schema st) (partitionValues a) = Inl e) =
                (\<exists>before name val rest.
                    partitionValues a = before @ (name, val) # rest
                    \<and> (\<forall>pair \<in> set before. \<not> isl (typed_value env (file_schema st) pair))
                    \<and> (case tryGetByName (file_schema st) name of
                          None \<Rightarrow> e = LOGICAL_ERROR
                        | Some name_and_type \<Rightarrow> getFieldValue env val (snd name_and_type) = Inl e))"
    by (simp add: typed_values_first_error)
qed

theorem add_partition_values_witness:
  "process_object example_helpers ''r'' (add_object ''v=7/f.parquet'' [(''v'', ''7'')])
     \<lparr>result = {}, file_schema = [(''v'', DataTypeInt64)], file_partition_columns = Map.empty\<rparr>
   = Inr \<lparr>result = {''r/v=7/f.parquet''}, file_schema = [(''v'', DataTypeInt64)],
          file_partition_columns = [''f.parquet'' \<mapsto> [((''v'', DataTypeInt64), Field_Int64 7)]]\<rparr>
   \<and> process_object example_helpers ''r'' (add_object ''v=7/f.parquet'' [(''w'', ''1'')])
     \<lparr>result = {}, file_schema = [(''v'', DataTypeInt64)], file_partition_columns = Map.empty\<rparr>
   = Inl LOGICAL_ERROR"
proof -
  have f: "filename ''v=7/f.parquet'' = ''f.parquet''" by (simp add: filename_def)
  have p: "path_append ''r'' ''v=7/f.parquet'' = ''r/v=7/f.parquet''" by (simp add: path_append_def)
  have 1: "process_object example_helpers ''r'' (add_object ''v=7/f.parquet'' [(''v'', ''7'')])
     \<lparr>result = {}, file_schema = [(''v'', DataTypeInt64)], file_partition_columns = Map.empty\<rparr>
   = Inr \<lparr>result = {''r/v=7/f.parquet''}, file_schema = [(''v'', DataTypeInt64)],
          file_partition_columns = [''f.parquet'' \<mapsto> [((''v'', DataTypeInt64), Field_Int64 7)]]\<rparr>"
    using add_partition_values [of "add_object ''v=7/f.parquet'' [(''v'', ''7'')]"
        "\<lparr>add_path = ''v=7/f.parquet'', partitionValues = [(''v'', ''7'')]\<rparr>"
        "\<lparr>result = {}, file_schema = [(''v'', DataTypeInt64)], file_partition_columns = Map.empty\<rparr>"
        example_helpers "''r''"]
    by (simp add: add_object_def f p example_typed_values process_metaData_def)
  have 2: "process_object example_helpers ''r'' (add_object ''v=7/f.parquet'' [(''w'', ''1'')])
     \<lparr>result = {}, file_schema = [(''v'', DataTypeInt64)], file_partition_columns = Map.empty\<rparr>
   = Inl LOGICAL_ERROR"
    using add_partition_values [of "add_object ''v=7/f.parquet'' [(''w'', ''1'')]"
        "\<lparr>add_path = ''v=7/f.parquet'', partitionValues = [(''w'', ''1'')]\<rparr>"
        "\<lparr>result = {}, file_schema = [(''v'', DataTypeInt64)], file_partition_columns = Map.empty\<rparr>"
        example_helpers "''r''"]
    by (simp add: add_object_def f example_typed_values_absent process_metaData_def)
  from 1 2 show ?thesis by (rule conjI)
qed

subsection \<open>Checkpoint rows\<close>

lemma checkpoint_rows_loop_eq:
  "checkpoint_rows_loop configuration_path rows res =
     (if distinct (emitted_paths configuration_path rows)
         \<and> set (emitted_paths configuration_path rows) \<inter> res = {}
      then Inr (res \<union> set (emitted_paths configuration_path rows))
      else Inl INCORRECT_DATA)"
proof (induction rows arbitrary: res)
  case Nil
  then show ?case by (simp add: emitted_paths_def)
next
  case (Cons row rows)
  show ?case
  proof (cases "row = []")
    case True
    then show ?thesis using Cons.IH[of res] by (simp add: emitted_paths_def)
  next
    case False
    show ?thesis
    proof (cases "path_append configuration_path row \<in> res")
      case True
      with False show ?thesis by (simp add: emitted_paths_def)
    next
      case notin: False
      with False show ?thesis
        using Cons.IH[of "insert (path_append configuration_path row) res"]
        by (auto simp: emitted_paths_def)
    qed
  qed
qed

lemma getCheckpointIfExists_checkpoint:
  assumes "exists_file storage (path_append (path_append configuration_path deltalake_metadata_directory) ''_last_checkpoint'')"
    and "last_checkpoint_version storage
           (path_append (path_append configuration_path deltalake_metadata_directory) ''_last_checkpoint'') = version"
    and "version \<noteq> 0"
    and "read_checkpoint storage
           (path_append (path_append configuration_path deltalake_metadata_directory)
              (withPadding version @ ''.checkpoint.parquet'')) = Inr chunk"
    and "res_columns_size chunk = 2"
  shows "getCheckpointIfExists storage configuration_path res =
     ([Exists (path_append (path_append configuration_path deltalake_metadata_directory) ''_last_checkpoint''),
       CreateReadBuffer (path_append (path_append configuration_path deltalake_metadata_directory) ''_last_checkpoint''),
       CreateReadBuffer (path_append (path_append configuration_path deltalake_metadata_directory)
              (withPadding version @ ''.checkpoint.parquet''))],
      if distinct (emitted_paths configuration_path (path_column chunk))
           \<and> set (emitted_paths configuration_path (path_column chunk)) \<inter> res = {}
      then Inr (res \<union> set (emitted_paths configuration_path (path_column chunk)), version)
      else Inl INCORRECT_DATA)"
  using assms
  by (simp add: getCheckpointIfExists_def readLastCheckpointIfExists_def Let_def
        checkpoint_rows_loop_eq)

lemma withPadding_10: "withPadding 10 = ''00000000000000000010''"
proof -
  have a: "toString 10 = ''10''" by code_simp
  have b: "replicate 18 CHR ''0'' = ''000000000000000000''" by code_simp
  show ?thesis by (simp add: withPadding_def Let_def a b)
qed

lemma checkpoint_storage_paths:
  "path_append (path_append ''r'' deltalake_metadata_directory) ''_last_checkpoint''
     = ''r/_delta_log/_last_checkpoint''"
  "path_append (path_append ''r'' deltalake_metadata_directory) (withPadding 10 @ ''.checkpoint.parquet'')
     = ''r/_delta_log/00000000000000000010.checkpoint.parquet''"
  by (simp_all add: path_append_def deltalake_metadata_directory_def withPadding_10)

text \<open>
  C5. In a store whose \<^verbatim>\<open>_last_checkpoint\<close> gives a version other than 0 and whose checkpoint
  file of that version is read as a chunk of two columns, \<^verbatim>\<open>getCheckpointIfExists\<close> skips the rows
  of the \<^verbatim>\<open>path\<close> column that are empty, inserts the path under the root of every other row into
  the set of files, and fails with \<open>INCORRECT_DATA\<close> if and only if one of these paths is in the
  set already, from before or from an earlier row. \<^verbatim>\<open>processMetadataFiles\<close> starts from the
  empty set: if two rows emit the same path it fails with \<open>INCORRECT_DATA\<close>, and otherwise it
  goes on to the log files with the emitted paths as its set of files.
\<close>

theorem checkpoint_rows:
  assumes "exists_file storage (path_append (path_append configuration_path deltalake_metadata_directory) ''_last_checkpoint'')"
    and "last_checkpoint_version storage
           (path_append (path_append configuration_path deltalake_metadata_directory) ''_last_checkpoint'') = version"
    and "version \<noteq> 0"
    and "read_checkpoint storage
           (path_append (path_append configuration_path deltalake_metadata_directory)
              (withPadding version @ ''.checkpoint.parquet'')) = Inr chunk"
    and "res_columns_size chunk = 2"
  shows "snd (getCheckpointIfExists storage configuration_path res) =
           (if distinct (emitted_paths configuration_path (path_column chunk))
                \<and> set (emitted_paths configuration_path (path_column chunk)) \<inter> res = {}
            then Inr (res \<union> set (emitted_paths configuration_path (path_column chunk)), version)
            else Inl INCORRECT_DATA)
       \<and> (\<not> distinct (emitted_paths configuration_path (path_column chunk)) \<longrightarrow>
             map_option snd (processMetadataFiles env storage configuration_path)
               = Some (Inl INCORRECT_DATA))
       \<and> (distinct (emitted_paths configuration_path (path_column chunk)) \<longrightarrow>
             processMetadataFiles env storage configuration_path =
               map_option (\<lambda>(calls1, r). (calls1, map_sum id make_metadata r))
                 (metadata_files_loop env storage configuration_path version
                    \<lparr>result = set (emitted_paths configuration_path (path_column chunk)),
                     file_schema = [], file_partition_columns = Map.empty\<rparr>
                    (fst (getCheckpointIfExists storage configuration_path {}))))"
proof (intro conjI impI)
  show "snd (getCheckpointIfExists storage configuration_path res) =
           (if distinct (emitted_paths configuration_path (path_column chunk))
                \<and> set (emitted_paths configuration_path (path_column chunk)) \<inter> res = {}
            then Inr (res \<union> set (emitted_paths configuration_path (path_column chunk)), version)
            else Inl INCORRECT_DATA)"
    by (simp add: getCheckpointIfExists_checkpoint[OF assms])
next
  assume "\<not> distinct (emitted_paths configuration_path (path_column chunk))"
  then show "map_option snd (processMetadataFiles env storage configuration_path)
               = Some (Inl INCORRECT_DATA)"
    by (simp add: processMetadataFiles_def getCheckpointIfExists_checkpoint[OF assms])
next
  assume "distinct (emitted_paths configuration_path (path_column chunk))"
  then show "processMetadataFiles env storage configuration_path =
               map_option (\<lambda>(calls1, r). (calls1, map_sum id make_metadata r))
                 (metadata_files_loop env storage configuration_path version
                    \<lparr>result = set (emitted_paths configuration_path (path_column chunk)),
                     file_schema = [], file_partition_columns = Map.empty\<rparr>
                    (fst (getCheckpointIfExists storage configuration_path {})))"
    using assms(3)
    by (simp add: processMetadataFiles_def getCheckpointIfExists_checkpoint[OF assms])
qed

theorem checkpoint_rows_witness:
  "snd (getCheckpointIfExists (checkpoint_storage [''b.parquet'', [], ''c.parquet'']) ''r'' {})
     = Inr ({''r/b.parquet'', ''r/c.parquet''}, 10)
   \<and> map_option snd (processMetadataFiles example_helpers
         (checkpoint_storage [''b.parquet'', ''c.parquet'', ''b.parquet'']) ''r'')
     = Some (Inl INCORRECT_DATA)"
proof -
  have e1: "emitted_paths ''r'' [''b.parquet'', [], ''c.parquet''] = [''r/b.parquet'', ''r/c.parquet'']"
    by (simp add: emitted_paths_def path_append_def)
  have e2: "emitted_paths ''r'' [''b.parquet'', ''c.parquet'', ''b.parquet'']
              = [''r/b.parquet'', ''r/c.parquet'', ''r/b.parquet'']"
    by (simp add: emitted_paths_def path_append_def)
  have 1: "snd (getCheckpointIfExists (checkpoint_storage [''b.parquet'', [], ''c.parquet'']) ''r'' {})
     = Inr ({''r/b.parquet'', ''r/c.parquet''}, 10)"
    using checkpoint_rows [of "checkpoint_storage [''b.parquet'', [], ''c.parquet'']" "''r''" 10
        "\<lparr>res_columns_size = 2, path_column = [''b.parquet'', [], ''c.parquet'']\<rparr>" "{}" example_helpers]
    by (simp add: checkpoint_storage_paths checkpoint_storage_def e1 insert_commute)
  have 2: "map_option snd (processMetadataFiles example_helpers
         (checkpoint_storage [''b.parquet'', ''c.parquet'', ''b.parquet'']) ''r'')
     = Some (Inl INCORRECT_DATA)"
    using checkpoint_rows [of "checkpoint_storage [''b.parquet'', ''c.parquet'', ''b.parquet'']" "''r''" 10
        "\<lparr>res_columns_size = 2, path_column = [''b.parquet'', ''c.parquet'', ''b.parquet'']\<rparr>" "{}"
        example_helpers]
    by (simp add: checkpoint_storage_paths checkpoint_storage_def e2)
  from 1 2 show ?thesis by (rule conjI)
qed

subsection \<open>The files that a parse reads\<close>

lemma process_objects_append:
  "process_objects env configuration_path (xs @ ys) st =
     (case process_objects env configuration_path xs st of
        Inl e \<Rightarrow> Inl e
      | Inr st1 \<Rightarrow> process_objects env configuration_path ys st1)"
  by (induction xs arbitrary: st) (auto split: sum.splits)

lemma keys_loop_result:
  "snd (keys_loop env storage configuration_path keys st calls) =
     process_objects env configuration_path (log_of storage keys) st"
proof (induction keys arbitrary: st calls)
  case Nil
  then show ?case by (simp add: log_of_def)
next
  case (Cons key keys)
  show ?case
  proof (cases "processMetadataFile env storage configuration_path key st")
    case (Inl e)
    then show ?thesis
      by (simp add: log_of_def process_objects_append processMetadataFile_def)
  next
    case (Inr st1)
    then show ?thesis
      using Cons.IH[of st1 "calls @ [CreateReadBuffer key]"]
      by (simp add: log_of_def process_objects_append processMetadataFile_def)
  qed
qed

lemma word_succ:
  fixes c n :: "64 word"
  assumes "c < n"
  shows "unat (c + 1) = Suc (unat c)" and "c < c + 1" and "c + 1 = n \<or> c + 1 < n"
proof -
  from assms have lt: "unat c < unat n" by (simp add: word_less_nat_alt)
  have "unat n < 2 ^ 64" using unsigned_less[of n] by simp
  with lt have b: "unat c + 1 < 2 ^ 64" by simp
  then have "unat (c + 1) = unat c + 1"
    by (simp add: unat_add_lem[THEN iffD1])
  then show u: "unat (c + 1) = Suc (unat c)" by simp
  then show "c < c + 1" by (simp add: word_less_nat_alt)
  from u lt have "unat (c + 1) = unat n \<or> unat (c + 1) < unat n" by auto
  then show "c + 1 = n \<or> c + 1 < n" by (auto simp: word_less_nat_alt word_unat_eq_iff)
qed

lemma versions_between_Nil:
  fixes c n :: "64 word"
  assumes "c < n" and "c + 1 = n"
  shows "versions_between c n = []"
  using word_succ(1)[OF assms(1)] assms(2) by (auto simp: versions_between_def)

lemma versions_between_Cons:
  fixes c n :: "64 word"
  assumes "c < n" and "c + 1 < n"
  shows "versions_between c n = (c + 1) # versions_between (c + 1) n"
proof -
  from assms(2) have lt: "unat (c + 1) < unat n" by (simp add: word_less_nat_alt)
  note u = word_succ(1)[OF assms(1)]
  from lt u have "[Suc (unat c) ..< unat n] = Suc (unat c) # [Suc (Suc (unat c)) ..< unat n]"
    by (simp add: upt_conv_Cons)
  moreover have "(of_nat (Suc (unat c)) :: 64 word) = c + 1" by simp
  ultimately show ?thesis unfolding versions_between_def u by simp
qed

lemma metadata_files_loop_run:
  "first_absent storage configuration_path c n \<Longrightarrow>
   \<exists>calls. metadata_files_loop env storage configuration_path c st calls0
       = Some (calls0 @ calls,
               process_objects env configuration_path
                 (log_of storage (map (log_file_path configuration_path) (versions_between c n))) st)
     \<and> (case process_objects env configuration_path
                 (log_of storage (map (log_file_path configuration_path) (versions_between c n))) st of
          Inr st' \<Rightarrow> calls = version_calls configuration_path (versions_between c n)
                              @ [Exists (log_file_path configuration_path n)]
        | Inl e \<Rightarrow> \<exists>vs. vs \<noteq> [] \<and> prefix vs (versions_between c n)
                     \<and> calls = version_calls configuration_path vs)"
proof (induction "unat n - unat c" arbitrary: c st calls0)
  case 0
  then show ?case by (simp add: first_absent_def word_less_nat_alt)
next
  case (Suc k)
  from Suc.prems have cn: "c < n"
    and absent: "\<not> exists_file storage (log_file_path configuration_path n)"
    and all: "list_all (\<lambda>v. exists_file storage (log_file_path configuration_path v)) (versions_between c n)"
    by (simp_all add: first_absent_def)
  note u = word_succ[OF cn]
  let ?fp = "log_file_path configuration_path (c + 1)"
  from u(3) show ?case
  proof
    assume eq: "c + 1 = n"
    have vs: "versions_between c n = []" by (rule versions_between_Nil[OF cn eq])
    have "metadata_files_loop env storage configuration_path c st calls0
            = Some (calls0 @ [Exists (log_file_path configuration_path n)], Inr st)"
      using absent eq by (subst metadata_files_loop.simps) (simp add: Let_def)
    then show ?thesis by (simp add: vs log_of_def version_calls_def)
  next
    assume lt: "c + 1 < n"
    have vs: "versions_between c n = (c + 1) # versions_between (c + 1) n"
      by (rule versions_between_Cons[OF cn lt])
    from all vs have ex: "exists_file storage ?fp"
      and all': "list_all (\<lambda>v. exists_file storage (log_file_path configuration_path v))
                   (versions_between (c + 1) n)" by simp_all
    from lt absent all' have fa: "first_absent storage configuration_path (c + 1) n"
      by (simp add: first_absent_def)
    from Suc.hyps(2) u(1) have k: "k = unat n - unat (c + 1)" by simp
    have log: "log_of storage (map (log_file_path configuration_path) (versions_between c n))
        = log_objects storage ?fp
          @ log_of storage (map (log_file_path configuration_path) (versions_between (c + 1) n))"
      by (simp add: vs log_of_def)
    show ?thesis
    proof (cases "process_objects env configuration_path (log_objects storage ?fp) st")
      case (Inl e)
      have "metadata_files_loop env storage configuration_path c st calls0
              = Some (calls0 @ [Exists ?fp, CreateReadBuffer ?fp], Inl e)"
        using ex Inl
        by (subst metadata_files_loop.simps) (simp add: Let_def processMetadataFile_def)
      moreover have "process_objects env configuration_path
                 (log_of storage (map (log_file_path configuration_path) (versions_between c n))) st
               = Inl e"
        using Inl by (simp add: log process_objects_append)
      moreover have "[c + 1] \<noteq> [] \<and> prefix [c + 1] (versions_between c n)
          \<and> [Exists ?fp, CreateReadBuffer ?fp] = version_calls configuration_path [c + 1]"
        by (simp add: vs version_calls_def)
      ultimately show ?thesis by (simp del: prefix_code) blast
    next
      case (Inr st1)
      have step: "metadata_files_loop env storage configuration_path c st calls0
              = metadata_files_loop env storage configuration_path (c + 1) st1
                  (calls0 @ [Exists ?fp, CreateReadBuffer ?fp])"
        using ex Inr
        by (subst metadata_files_loop.simps) (simp add: Let_def processMetadataFile_def)
      have r: "process_objects env configuration_path
                 (log_of storage (map (log_file_path configuration_path) (versions_between c n))) st
               = process_objects env configuration_path
                 (log_of storage (map (log_file_path configuration_path) (versions_between (c + 1) n))) st1"
        using Inr by (simp add: log process_objects_append)
      from Suc.hyps(1)[OF k fa, of st1 "calls0 @ [Exists ?fp, CreateReadBuffer ?fp]"]
      obtain calls' where
        1: "metadata_files_loop env storage configuration_path (c + 1) st1
               (calls0 @ [Exists ?fp, CreateReadBuffer ?fp])
            = Some ((calls0 @ [Exists ?fp, CreateReadBuffer ?fp]) @ calls',
                 process_objects env configuration_path
                 (log_of storage (map (log_file_path configuration_path) (versions_between (c + 1) n))) st1)"
        and 2: "case process_objects env configuration_path
                 (log_of storage (map (log_file_path configuration_path) (versions_between (c + 1) n))) st1 of
          Inr st' \<Rightarrow> calls' = version_calls configuration_path (versions_between (c + 1) n)
                              @ [Exists (log_file_path configuration_path n)]
        | Inl e \<Rightarrow> \<exists>vs. vs \<noteq> [] \<and> prefix vs (versions_between (c + 1) n)
                     \<and> calls' = version_calls configuration_path vs"
        by blast
      let ?calls = "[Exists ?fp, CreateReadBuffer ?fp] @ calls'"
      have a: "metadata_files_loop env storage configuration_path c st calls0
          = Some (calls0 @ ?calls, process_objects env configuration_path
                 (log_of storage (map (log_file_path configuration_path) (versions_between c n))) st)"
        using step 1 r by simp
      have b: "case process_objects env configuration_path
                 (log_of storage (map (log_file_path configuration_path) (versions_between c n))) st of
          Inr st' \<Rightarrow> ?calls = version_calls configuration_path (versions_between c n)
                              @ [Exists (log_file_path configuration_path n)]
        | Inl e \<Rightarrow> \<exists>vs. vs \<noteq> [] \<and> prefix vs (versions_between c n)
                     \<and> ?calls = version_calls configuration_path vs"
      proof (cases "process_objects env configuration_path
                 (log_of storage (map (log_file_path configuration_path) (versions_between (c + 1) n))) st1")
        case (Inr st')
        with 2 r show ?thesis by (simp add: vs version_calls_def)
      next
        case (Inl e)
        with 2 obtain vs' where v: "vs' \<noteq> []" "prefix vs' (versions_between (c + 1) n)"
          "calls' = version_calls configuration_path vs'" by auto
        then have "(c + 1) # vs' \<noteq> [] \<and> prefix ((c + 1) # vs') (versions_between c n)
            \<and> ?calls = version_calls configuration_path ((c + 1) # vs')"
          by (simp add: vs version_calls_def)
        then have "\<exists>vs. vs \<noteq> [] \<and> prefix vs (versions_between c n)
                     \<and> ?calls = version_calls configuration_path vs" by blast
        with Inl r show ?thesis by simp
      qed
      from a b show ?thesis by blast
    qed
  qed
qed
















lemma parse_result:
  assumes "getCheckpointIfExists storage configuration_path {} = (calls0, Inr (files0, V))"
    and "V \<noteq> 0 \<longrightarrow> first_absent storage configuration_path V n"
  shows "\<exists>calls. processMetadataFiles env storage configuration_path =
           Some (calls, map_sum id make_metadata
                   (process_objects env configuration_path
                      (log_of storage (log_keys storage configuration_path V n))
                      \<lparr>result = files0, file_schema = [], file_partition_columns = Map.empty\<rparr>))"
proof (cases "V = 0")
  case True
  let ?st = "\<lparr>result = files0, file_schema = [], file_partition_columns = Map.empty\<rparr>"
  obtain calls r where k: "keys_loop env storage configuration_path (listFiles storage) ?st
                             (calls0 @ [ListFiles]) = (calls, r)" by (cases "keys_loop env storage configuration_path (listFiles storage) ?st
                             (calls0 @ [ListFiles])")
  with keys_loop_result[of env storage configuration_path "listFiles storage" ?st "calls0 @ [ListFiles]"]
  have r: "r = process_objects env configuration_path (log_of storage (listFiles storage)) ?st" by simp
  have "processMetadataFiles env storage configuration_path = Some (calls, map_sum id make_metadata r)"
    using True k by (simp add: processMetadataFiles_def assms(1))
  with r True show ?thesis by (simp add: log_keys_def)
next
  case False
  let ?st = "\<lparr>result = files0, file_schema = [], file_partition_columns = Map.empty\<rparr>"
  from False assms(2) have fa: "first_absent storage configuration_path V n" by simp
  from metadata_files_loop_run[OF fa, of env ?st calls0] obtain calls where
    "metadata_files_loop env storage configuration_path V ?st calls0
       = Some (calls0 @ calls,
               process_objects env configuration_path
                 (log_of storage (map (log_file_path configuration_path) (versions_between V n))) ?st)"
    by blast
  then have "processMetadataFiles env storage configuration_path =
           Some (calls0 @ calls, map_sum id make_metadata
                   (process_objects env configuration_path
                      (log_of storage (map (log_file_path configuration_path) (versions_between V n))) ?st))"
    using False by (simp add: processMetadataFiles_def assms(1))
  with False show ?thesis by (simp add: log_keys_def)
qed

subsection \<open>The scan of the versions after a checkpoint\<close>










subsection \<open>Schemas\<close>

lemma process_object_schema_kept:
  assumes "process_object env configuration_path object st = Inr st'" and "file_schema st \<noteq> []"
  shows "file_schema st' = file_schema st"
proof -
  from assms(1) obtain st1 where 1: "process_add_remove env configuration_path object st = Inr st1"
    and 2: "process_metaData env object st1 = Inr st'"
    by (auto simp: process_object_def split: sum.splits)
  from process_add_remove_schema[OF 1] assms(2) have "file_schema st1 = file_schema st" "file_schema st1 \<noteq> []"
    by simp_all
  with 2 show ?thesis
    by (auto simp: process_metaData_def split: option.splits sum.splits if_splits)
qed

lemma process_objects_schema_kept:
  "process_objects env configuration_path objects st = Inr st' \<Longrightarrow> file_schema st \<noteq> []
   \<Longrightarrow> file_schema st' = file_schema st"
proof (induction objects arbitrary: st)
  case Nil
  then show ?case by simp
next
  case (Cons object objects)
  from Cons.prems(1) obtain st1 where 1: "process_object env configuration_path object st = Inr st1"
    and 2: "process_objects env configuration_path objects st1 = Inr st'"
    by (auto split: sum.splits)
  from process_object_schema_kept[OF 1 Cons.prems(2)] have s: "file_schema st1 = file_schema st" .
  with Cons.IH[OF 2] Cons.prems(2) show ?case by simp
qed

lemma process_object_metaData_schema:
  assumes "process_object env configuration_path object st = Inr st'"
    and "metaData_key object = Some schema_fields"
  shows "schema_fields_loop env schema_fields = Inr (file_schema st')"
proof -
  from assms(1) obtain st1 where "process_metaData env object st1 = Inr st'"
    by (auto simp: process_object_def split: sum.splits)
  from process_metaData_schema[OF this] assms(2) show ?thesis by simp
qed

lemma observed_schemas:
  "process_objects env configuration_path objects st = Inr st' \<Longrightarrow>
   object \<in> set objects \<Longrightarrow> metaData_key object = Some schema_fields \<Longrightarrow>
   \<exists>current_schema. schema_fields_loop env schema_fields = Inr current_schema
      \<and> (current_schema = [] \<or> current_schema = file_schema st')"
proof (induction objects arbitrary: st)
  case Nil
  then show ?case by simp
next
  case (Cons x objects)
  from Cons.prems(1) obtain st1 where 1: "process_object env configuration_path x st = Inr st1"
    and 2: "process_objects env configuration_path objects st1 = Inr st'"
    by (auto split: sum.splits)
  show ?case
  proof (cases "object = x")
    case True
    from process_object_metaData_schema[OF 1] True Cons.prems(3)
    have s: "schema_fields_loop env schema_fields = Inr (file_schema st1)" by simp
    show ?thesis
    proof (cases "file_schema st1 = []")
      case True
      with s show ?thesis by simp
    next
      case False
      from process_objects_schema_kept[OF 2 False] s show ?thesis by simp
    qed
  next
    case False
    with Cons.prems(2) have "object \<in> set objects" by simp
    from Cons.IH[OF 2 this Cons.prems(3)] show ?thesis .
  qed
qed

lemma schema_conflict:
  assumes "process_objects env configuration_path before st = Inr st1"
    and "file_schema st1 \<noteq> []"
    and "process_add_remove env configuration_path object st1 = Inr st2"
    and "metaData_key object = Some schema_fields"
    and "schema_fields_loop env schema_fields = Inr current_schema"
    and "current_schema \<noteq> file_schema st1"
  shows "process_objects env configuration_path (before @ object # rest) st = Inl NOT_IMPLEMENTED"
proof -
  from process_add_remove_schema[OF assms(3)] have "file_schema st2 = file_schema st1" .
  with assms(2,4,5,6) have "process_metaData env object st2 = Inl NOT_IMPLEMENTED"
    by (auto simp: process_metaData_def)
  with assms(3) have "process_object env configuration_path object st1 = Inl NOT_IMPLEMENTED"
    by (simp add: process_object_def)
  with assms(1) show ?thesis by (simp add: process_objects_append)
qed

lemma schema_stable:
  assumes "\<forall>x \<in> set objects. \<forall>fs. metaData_key x = Some fs \<longrightarrow> schema_fields_loop env fs = Inr S"
    and "adds_succeed env configuration_path objects st"
    and "file_schema st = [] \<or> file_schema st = S"
  shows "\<exists>st'. process_objects env configuration_path objects st = Inr st'
           \<and> file_schema st' =
               (if \<exists>x \<in> set objects. metaData_key x \<noteq> None then S else file_schema st)"
  using assms
proof (induction objects arbitrary: st)
  case Nil
  then show ?case by simp
next
  case (Cons object objects)
  from Cons.prems(2) obtain st1 where 1: "process_add_remove env configuration_path object st = Inr st1"
    by (auto split: sum.splits)
  from process_add_remove_schema[OF 1] have s1: "file_schema st1 = file_schema st" .
  have "\<exists>st2. process_metaData env object st1 = Inr st2
          \<and> file_schema st2 = (if metaData_key object \<noteq> None then S else file_schema st)"
    using Cons.prems(1,3) s1
    by (auto simp: process_metaData_def split: option.splits)
  then obtain st2 where 2: "process_metaData env object st1 = Inr st2"
    and s2: "file_schema st2 = (if metaData_key object \<noteq> None then S else file_schema st)" by blast
  from 1 2 have po: "process_object env configuration_path object st = Inr st2"
    by (simp add: process_object_def)
  from Cons.prems(2) 1 2 have as: "adds_succeed env configuration_path objects st2" by simp
  have inv: "file_schema st2 = [] \<or> file_schema st2 = S" using s2 Cons.prems(3) by auto
  from Cons.prems(1) have rest: "\<forall>x \<in> set objects. \<forall>fs. metaData_key x = Some fs \<longrightarrow>
                 schema_fields_loop env fs = Inr S" by simp
  from Cons.IH[OF rest as inv] obtain st' where
    3: "process_objects env configuration_path objects st2 = Inr st'"
    and s3: "file_schema st' =
               (if \<exists>x \<in> set objects. metaData_key x \<noteq> None then S else file_schema st2)"
    by blast
  from po 3 have "process_objects env configuration_path (object # objects) st = Inr st'" by simp
  moreover from s2 s3 have "file_schema st' =
       (if \<exists>x \<in> set (object # objects). metaData_key x \<noteq> None then S else file_schema st)"
    by auto
  ultimately show ?case by blast
qed

lemma empty_schema_storage_checkpoint:
  "getCheckpointIfExists empty_schema_storage ''r'' {} =
     ([Exists ''r/_delta_log/_last_checkpoint''], Inr ({}, 0))"
  by (simp add: getCheckpointIfExists_def readLastCheckpointIfExists_def
      empty_schema_storage_def path_append_def deltalake_metadata_directory_def)

lemma empty_schema_storage_file0:
  "processMetadataFile example_helpers empty_schema_storage ''r''
     ''r/_delta_log/00000000000000000000.json'' empty_state = Inr empty_state"
  by (simp add: empty_schema_storage_def processMetadataFile_def metaData_object_def
      process_object_def process_add_remove_def process_metaData_def empty_state_def)

lemma empty_schema_storage_file1:
  "processMetadataFile example_helpers empty_schema_storage ''r''
     ''r/_delta_log/00000000000000000001.json'' empty_state
   = Inr \<lparr>result = {}, file_schema = [(''x'', DataTypeInt64)], file_partition_columns = Map.empty\<rparr>"
  by (simp add: empty_schema_storage_def processMetadataFile_def metaData_object_def
      process_object_def process_add_remove_def process_metaData_def empty_state_def
      long_field_def getSimple_long)

lemma empty_schema_storage_keys:
  "listFiles empty_schema_storage = [''r/_delta_log/00000000000000000000.json'',
                   ''r/_delta_log/00000000000000000001.json'']"
  by (simp add: empty_schema_storage_def)

lemma empty_schema_storage_metadata:
  "processMetadataFiles example_helpers empty_schema_storage ''r''
   = Some ([Exists ''r/_delta_log/_last_checkpoint'', ListFiles,
            CreateReadBuffer ''r/_delta_log/00000000000000000000.json'',
            CreateReadBuffer ''r/_delta_log/00000000000000000001.json''],
           Inr (make_metadata
                  \<lparr>result = {}, file_schema = [(''x'', DataTypeInt64)],
                   file_partition_columns = Map.empty\<rparr>))"
  using empty_schema_storage_file0 empty_schema_storage_file1
  by (simp add: processMetadataFiles_def empty_schema_storage_checkpoint
      empty_schema_storage_keys empty_state_def)

text \<open>
  C3, as the claim states it, fails: in the store \<open>empty_schema_storage\<close> the two \<^verbatim>\<open>metaData\<close>
  actions have the distinct schemas \<open>[]\<close> and \<open>[x]\<close>, and the parse returns the schema \<open>[x]\<close>.
  \<^verbatim>\<open>processMetadataFile\<close> takes a schema that is empty for a schema that is not there yet.
\<close>

theorem empty_schema_counterexample:
  "map_option (map_prod id (map_sum id schema))
     (processMetadataFiles example_helpers empty_schema_storage ''r'')
   = Some ([Exists ''r/_delta_log/_last_checkpoint'', ListFiles,
            CreateReadBuffer ''r/_delta_log/00000000000000000000.json'',
            CreateReadBuffer ''r/_delta_log/00000000000000000001.json''],
           Inr [(''x'', DataTypeInt64)])
   \<and> schema_fields_loop example_helpers [] = Inr []
   \<and> schema_fields_loop example_helpers [long_field ''x''] = Inr [(''x'', DataTypeInt64)]"
  by (simp add: empty_schema_storage_metadata make_metadata_def long_field_def getSimple_long)

lemma getSimple_string: "getSimpleTypeByName env ''string'' = Inr DataTypeString"
  by (simp add: getSimpleTypeByName_def)

lemma schema_string_field: "schema_fields_loop env [string_field n] = Inr [(n, DataTypeString)]"
  by (simp add: string_field_def getSimple_string)

lemma conflict_storage_checkpoint:
  "getCheckpointIfExists conflict_storage ''r'' {} =
     ([Exists ''r/_delta_log/_last_checkpoint''], Inr ({}, 0))"
  by (simp add: getCheckpointIfExists_def readLastCheckpointIfExists_def
      conflict_storage_def path_append_def deltalake_metadata_directory_def)

lemma conflict_storage_log:
  "log_of conflict_storage (log_keys conflict_storage ''r'' 0 n) =
     [metaData_object [long_field ''x'']] @ metaData_object [string_field ''x''] # []"
  by (simp add: log_of_def log_keys_def conflict_storage_def)

lemma removed_file_storage_log:
  "log_of removed_file_storage (log_keys removed_file_storage ''r'' 0 n) =
     [metaData_object [long_field ''v''], add_object ''v=7/f.parquet'' [(''v'', ''7'')],
      remove_object ''v=7/f.parquet'']"
  by (simp add: log_of_def log_keys_def removed_file_storage_def)

lemma metaData_object_run:
  "process_object env configuration_path (metaData_object [long_field x])
     \<lparr>result = files, file_schema = [], file_partition_columns = columns\<rparr>
   = Inr \<lparr>result = files, file_schema = [(x, DataTypeInt64)], file_partition_columns = columns\<rparr>"
  by (simp add: process_object_def process_add_remove_def process_metaData_def metaData_object_def
        long_field_def getSimple_long)

lemma removed_file_storage_adds:
  "adds_succeed example_helpers ''r''
     [metaData_object [long_field ''v''], add_object ''v=7/f.parquet'' [(''v'', ''7'')],
      remove_object ''v=7/f.parquet'']
     \<lparr>result = {}, file_schema = [], file_partition_columns = Map.empty\<rparr>"
proof -
  have 1: "process_add_remove example_helpers ''r'' (metaData_object [long_field ''v''])
             \<lparr>result = {}, file_schema = [], file_partition_columns = Map.empty\<rparr>
           = Inr \<lparr>result = {}, file_schema = [], file_partition_columns = Map.empty\<rparr>"
    by (simp add: process_add_remove_def metaData_object_def)
  have 2: "process_metaData example_helpers (metaData_object [long_field ''v''])
             \<lparr>result = {}, file_schema = [], file_partition_columns = Map.empty\<rparr>
           = Inr \<lparr>result = {}, file_schema = [(''v'', DataTypeInt64)], file_partition_columns = Map.empty\<rparr>"
    by (simp add: process_metaData_def metaData_object_def long_field_def getSimple_long)
  have 3: "process_add_remove example_helpers ''r'' (add_object ''v=7/f.parquet'' [(''v'', ''7'')])
             \<lparr>result = {}, file_schema = [(''v'', DataTypeInt64)], file_partition_columns = Map.empty\<rparr>
           = Inr \<lparr>result = {''r/v=7/f.parquet''}, file_schema = [(''v'', DataTypeInt64)],
                  file_partition_columns = [''f.parquet'' \<mapsto> [((''v'', DataTypeInt64), Field_Int64 7)]]\<rparr>"
    by (simp add: process_add_remove_def add_object_def Let_def filename_def path_append_def
          tryGetByName_def getFieldValue_def example_helpers_def)
  have 4: "process_metaData example_helpers (add_object ''v=7/f.parquet'' [(''v'', ''7'')]) st = Inr st" for st
    by (simp add: process_metaData_def add_object_def)
  have 5: "process_add_remove example_helpers ''r'' (remove_object ''v=7/f.parquet'') st
           = Inr (st\<lparr>result := result st - {path_append ''r'' ''v=7/f.parquet''}\<rparr>)" for st
    by (simp add: process_add_remove_def remove_object_def)
  have 6: "process_metaData example_helpers (remove_object ''v=7/f.parquet'') st = Inr st" for st
    by (simp add: process_metaData_def remove_object_def)
  show ?thesis by (simp add: 1 2 3 4 5 6)
qed

text \<open>
  C3, amended. The objects of a parse are those of the files it reads, one file after the other:
  the files listed, or after a checkpoint the log files of the versions up to the first absent
  one. If the objects before an object are applied without failure and leave a schema that is
  not empty, and the object has a \<^verbatim>\<open>metaData\<close> whose schema is different (its own add or remove
  applied without failure), then \<^verbatim>\<open>processMetadataFiles\<close> fails with \<open>NOT_IMPLEMENTED\<close>. If
  \<^verbatim>\<open>processMetadataFiles\<close> returns metadata, the schema of every \<^verbatim>\<open>metaData\<close> among the objects is
  empty or is the schema returned. If the schemas of all \<^verbatim>\<open>metaData\<close> among the objects are one
  schema \<open>S\<close>, and no add fails, then \<^verbatim>\<open>processMetadataFiles\<close> returns metadata, and its schema is
  \<open>S\<close> (empty if there is no \<^verbatim>\<open>metaData\<close>).
\<close>

theorem schema_conflict_detection:
  assumes "getCheckpointIfExists storage configuration_path {} = (calls0, Inr (files0, V))"
    and "V \<noteq> 0 \<longrightarrow> first_absent storage configuration_path V n"
  shows "(log_of storage (log_keys storage configuration_path V n) = before @ object # rest
          \<and> process_objects env configuration_path before
                \<lparr>result = files0, file_schema = [], file_partition_columns = Map.empty\<rparr> = Inr st1
          \<and> file_schema st1 \<noteq> []
          \<and> process_add_remove env configuration_path object st1 = Inr st2
          \<and> metaData_key object = Some schema_fields
          \<and> schema_fields_loop env schema_fields = Inr current_schema
          \<and> current_schema \<noteq> file_schema st1
        \<longrightarrow> map_option snd (processMetadataFiles env storage configuration_path)
              = Some (Inl NOT_IMPLEMENTED))
       \<and> (\<forall>calls metadata.
             processMetadataFiles env storage configuration_path = Some (calls, Inr metadata) \<longrightarrow>
             (\<forall>x \<in> set (log_of storage (log_keys storage configuration_path V n)).
                \<forall>fs. metaData_key x = Some fs \<longrightarrow>
                  (\<exists>observed. schema_fields_loop env fs = Inr observed
                      \<and> (observed = [] \<or> observed = schema metadata))))
       \<and> ((\<forall>x \<in> set (log_of storage (log_keys storage configuration_path V n)).
              \<forall>fs. metaData_key x = Some fs \<longrightarrow> schema_fields_loop env fs = Inr S)
           \<and> adds_succeed env configuration_path
                (log_of storage (log_keys storage configuration_path V n))
                \<lparr>result = files0, file_schema = [], file_partition_columns = Map.empty\<rparr>
          \<longrightarrow> (\<exists>calls metadata.
                 processMetadataFiles env storage configuration_path = Some (calls, Inr metadata)
                 \<and> schema metadata =
                     (if \<exists>x \<in> set (log_of storage (log_keys storage configuration_path V n)).
                           metaData_key x \<noteq> None
                      then S else [])))"
proof -
  let ?log = "log_of storage (log_keys storage configuration_path V n)"
  let ?st0 = "\<lparr>result = files0, file_schema = [], file_partition_columns = Map.empty\<rparr>"
  from parse_result[OF assms, of env] obtain calls where
    parse: "processMetadataFiles env storage configuration_path =
              Some (calls, map_sum id make_metadata (process_objects env configuration_path ?log ?st0))"
    by blast
  have 1: "?log = before @ object # rest
          \<and> process_objects env configuration_path before ?st0 = Inr st1
          \<and> file_schema st1 \<noteq> []
          \<and> process_add_remove env configuration_path object st1 = Inr st2
          \<and> metaData_key object = Some schema_fields
          \<and> schema_fields_loop env schema_fields = Inr current_schema
          \<and> current_schema \<noteq> file_schema st1
        \<longrightarrow> map_option snd (processMetadataFiles env storage configuration_path)
              = Some (Inl NOT_IMPLEMENTED)"
  proof
    assume a: "?log = before @ object # rest
          \<and> process_objects env configuration_path before ?st0 = Inr st1
          \<and> file_schema st1 \<noteq> []
          \<and> process_add_remove env configuration_path object st1 = Inr st2
          \<and> metaData_key object = Some schema_fields
          \<and> schema_fields_loop env schema_fields = Inr current_schema
          \<and> current_schema \<noteq> file_schema st1"
    then have "process_objects env configuration_path (before @ object # rest) ?st0 = Inl NOT_IMPLEMENTED"
      using schema_conflict[of env configuration_path before ?st0 st1 object st2 schema_fields
          current_schema rest] by blast
    with a have "process_objects env configuration_path ?log ?st0 = Inl NOT_IMPLEMENTED" by simp
    with parse show "map_option snd (processMetadataFiles env storage configuration_path)
              = Some (Inl NOT_IMPLEMENTED)" by simp
  qed
  have 2: "\<forall>calls metadata.
             processMetadataFiles env storage configuration_path = Some (calls, Inr metadata) \<longrightarrow>
             (\<forall>x \<in> set ?log. \<forall>fs. metaData_key x = Some fs \<longrightarrow>
                  (\<exists>observed. schema_fields_loop env fs = Inr observed
                      \<and> (observed = [] \<or> observed = schema metadata)))"
  proof (intro allI impI ballI)
    fix calls' metadata x fs
    assume r: "processMetadataFiles env storage configuration_path = Some (calls', Inr metadata)"
      and x: "x \<in> set ?log" and m: "metaData_key x = Some fs"
    from r parse obtain st' where st': "process_objects env configuration_path ?log ?st0 = Inr st'"
      and md: "metadata = make_metadata st'"
      by (cases "process_objects env configuration_path ?log ?st0") auto
    from observed_schemas[OF st' x m] md
    show "\<exists>observed. schema_fields_loop env fs = Inr observed
                      \<and> (observed = [] \<or> observed = schema metadata)"
      by (simp add: make_metadata_def)
  qed
  have 3: "(\<forall>x \<in> set ?log. \<forall>fs. metaData_key x = Some fs \<longrightarrow> schema_fields_loop env fs = Inr S)
           \<and> adds_succeed env configuration_path ?log ?st0
          \<longrightarrow> (\<exists>calls metadata.
                 processMetadataFiles env storage configuration_path = Some (calls, Inr metadata)
                 \<and> schema metadata = (if \<exists>x \<in> set ?log. metaData_key x \<noteq> None then S else []))"
  proof
    assume a: "(\<forall>x \<in> set ?log. \<forall>fs. metaData_key x = Some fs \<longrightarrow> schema_fields_loop env fs = Inr S)
           \<and> adds_succeed env configuration_path ?log ?st0"
    have "file_schema ?st0 = [] \<or> file_schema ?st0 = S" by simp
    from schema_stable[OF conjunct1[OF a] conjunct2[OF a] this]
    obtain st' where st': "process_objects env configuration_path ?log ?st0 = Inr st'"
      and s: "file_schema st' = (if \<exists>x \<in> set ?log. metaData_key x \<noteq> None then S else file_schema ?st0)"
      by blast
    from parse st' have "processMetadataFiles env storage configuration_path
        = Some (calls, Inr (make_metadata st'))" by simp
    moreover from s have "schema (make_metadata st')
        = (if \<exists>x \<in> set ?log. metaData_key x \<noteq> None then S else [])"
      by (simp add: make_metadata_def)
    ultimately show "\<exists>calls metadata.
                 processMetadataFiles env storage configuration_path = Some (calls, Inr metadata)
                 \<and> schema metadata = (if \<exists>x \<in> set ?log. metaData_key x \<noteq> None then S else [])"
      by blast
  qed
  from 1 2 3 show ?thesis by blast
qed

theorem schema_conflict_detection_witness:
  "map_option snd (processMetadataFiles example_helpers conflict_storage ''r'')
     = Some (Inl NOT_IMPLEMENTED)
   \<and> map_option (\<lambda>(calls, r). map_sum id schema r)
        (processMetadataFiles example_helpers removed_file_storage ''r'')
     = Some (Inr [(''v'', DataTypeInt64)])"
proof
  let ?st1 = "\<lparr>result = {}, file_schema = [(''x'', DataTypeInt64)], file_partition_columns = Map.empty\<rparr>"
  have z: "(0 :: 64 word) \<noteq> 0 \<longrightarrow> first_absent conflict_storage ''r'' 0 0" by simp
  have 1: "process_objects example_helpers ''r'' [metaData_object [long_field ''x'']]
             \<lparr>result = {}, file_schema = [], file_partition_columns = Map.empty\<rparr> = Inr ?st1"
    by (simp add: metaData_object_run)
  have 2: "process_add_remove example_helpers ''r'' (metaData_object [string_field ''x'']) ?st1 = Inr ?st1"
    by (simp add: process_add_remove_def metaData_object_def)
  have 3: "metaData_key (metaData_object [string_field ''x'']) = Some [string_field ''x'']"
    by (simp add: metaData_object_def)
  have 4: "schema_fields_loop example_helpers [string_field ''x''] = Inr [(''x'', DataTypeString)]"
    by (rule schema_string_field)
  have 5: "file_schema ?st1 \<noteq> []" "[(''x'', DataTypeString)] \<noteq> file_schema ?st1" by simp_all
  note law = schema_conflict_detection [OF conflict_storage_checkpoint z,
      of "[metaData_object [long_field ''x'']]" "metaData_object [string_field ''x'']" "[]"
         example_helpers ?st1 ?st1 "[string_field ''x'']" "[(''x'', DataTypeString)]" "[]",
      THEN conjunct1]
  from mp[OF law] conflict_storage_log[of 0] 1 2 3 4 5
  show "map_option snd (processMetadataFiles example_helpers conflict_storage ''r'')
     = Some (Inl NOT_IMPLEMENTED)"
    by blast
next
  let ?log = "[metaData_object [long_field ''v''], add_object ''v=7/f.parquet'' [(''v'', ''7'')],
      remove_object ''v=7/f.parquet'']"
  have z: "(0 :: 64 word) \<noteq> 0 \<longrightarrow> first_absent removed_file_storage ''r'' 0 0" by simp
  have m: "\<forall>x \<in> set ?log. \<forall>fs. metaData_key x = Some fs \<longrightarrow>
             schema_fields_loop example_helpers fs = Inr [(''v'', DataTypeInt64)]"
    by (simp add: metaData_object_def add_object_def remove_object_def long_field_def getSimple_long)
  have ex: "\<exists>x \<in> set ?log. metaData_key x \<noteq> None"
    by (simp add: metaData_object_def)
  note law = schema_conflict_detection [OF removed_file_storage_checkpoint z,
      of "[]" "metaData_object []" "[]" example_helpers empty_state empty_state "[]" "[]"
         "[(''v'', DataTypeInt64)]",
      THEN conjunct2, THEN conjunct2]
  have "\<exists>calls metadata.
          processMetadataFiles example_helpers removed_file_storage ''r'' = Some (calls, Inr metadata)
          \<and> schema metadata = [(''v'', DataTypeInt64)]"
    using mp[OF law] m ex removed_file_storage_adds
    unfolding removed_file_storage_log by simp
  then show "map_option (\<lambda>(calls, r). map_sum id schema r)
        (processMetadataFiles example_helpers removed_file_storage ''r'')
     = Some (Inr [(''v'', DataTypeInt64)])"
    by auto
qed

subsection \<open>Decimal type names\<close>

lemma numeric_not_sign: "isNumericASCII c \<Longrightarrow> c \<noteq> CHR ''+'' \<and> c \<noteq> CHR ''-''"
  by (auto simp: isNumericASCII_def less_eq_char_def)

lemma numeric_not_whitespace: "isNumericASCII c \<Longrightarrow> \<not> isWhitespaceASCII c"
  by (auto simp: isNumericASCII_def isWhitespaceASCII_def less_eq_char_def)

lemma mod_step:
  "(((r * 10 + d) mod M) * 10 ^ k + v) mod M = (r * 10 ^ Suc k + (d * 10 ^ k + v)) mod (M::nat)"
proof -
  have "(((r * 10 + d) mod M) * 10 ^ k + v) mod M = ((r * 10 + d) * 10 ^ k + v) mod M"
    by (metis mod_add_left_eq mod_mult_left_eq)
  also have "(r * 10 + d) * 10 ^ k + v = r * 10 ^ Suc k + (d * 10 ^ k + v)"
    by (simp add: algebra_simps)
  finally show ?thesis .
qed

lemma readIntTextImpl_stop:
  "rest = [] \<or> \<not> isNumericASCII (hd rest) \<Longrightarrow>
   readIntTextImpl has_sign True res rest = Inr (has_sign, True, res, rest)"
  by (cases rest) auto

lemma readIntTextImpl_digit:
  "isNumericASCII d \<Longrightarrow>
   readIntTextImpl has_sign has_number res (d # cs) =
     readIntTextImpl has_sign True ((res * 10 + (of_char d - of_char CHR ''0'')) mod 2 ^ 64) cs"
  using numeric_not_sign[of d] by simp

lemma readIntTextImpl_digits:
  "\<forall>c \<in> set ds. isNumericASCII c \<Longrightarrow> rest = [] \<or> \<not> isNumericASCII (hd rest) \<Longrightarrow>
   readIntTextImpl has_sign True res (ds @ rest)
     = Inr (has_sign, True, if ds = [] then res else (res * 10 ^ length ds + dec_value ds) mod 2 ^ 64, rest)"
proof (induction ds arbitrary: res)
  case Nil
  then show ?case by (simp only: append_Nil readIntTextImpl_stop if_True simp_thms)
next
  case (Cons d ds)
  let ?r = "(res * 10 + (of_char d - of_char CHR ''0'')) mod 2 ^ 64"
  from Cons.prems have d: "isNumericASCII d" and ds: "\<forall>c \<in> set ds. isNumericASCII c" by simp_all
  have step: "readIntTextImpl has_sign True res ((d # ds) @ rest)
      = readIntTextImpl has_sign True ?r (ds @ rest)"
    by (simp only: append_Cons readIntTextImpl_digit[OF d])
  have ih: "readIntTextImpl has_sign True ?r (ds @ rest)
     = Inr (has_sign, True, if ds = [] then ?r else (?r * 10 ^ length ds + dec_value ds) mod 2 ^ 64, rest)"
    by (rule Cons.IH[OF ds Cons.prems(2)])
  have v: "(if ds = [] then ?r else (?r * 10 ^ length ds + dec_value ds) mod 2 ^ 64)
      = (res * 10 ^ length (d # ds) + dec_value (d # ds)) mod 2 ^ 64"
  proof (cases "ds = []")
    case True
    then show ?thesis by (simp only: if_True list.size dec_value.simps) simp
  next
    case False
    have "(?r * 10 ^ length ds + dec_value ds) mod 2 ^ 64
        = (res * 10 ^ Suc (length ds) + ((of_char d - of_char CHR ''0'') * 10 ^ length ds + dec_value ds)) mod 2 ^ 64"
      by (rule mod_step)
    with False show ?thesis by (simp only: if_False length_Cons dec_value.simps)
  qed
  show ?case
    by (simp only: step ih v list.simps if_False)
qed


lemma readIntTextImpl_first:
  assumes "\<forall>c \<in> set ds. isNumericASCII c" and "ds \<noteq> []"
    and "rest = [] \<or> \<not> isNumericASCII (hd rest)"
  shows "readIntTextImpl False False 0 (ds @ rest) = Inr (False, True, dec_value ds mod 2 ^ 64, rest)"
proof -
  from assms(2) obtain d ds' where ds: "ds = d # ds'" by (cases ds) auto
  with assms(1) have d: "isNumericASCII d" and ds': "\<forall>c \<in> set ds'. isNumericASCII c" by simp_all
  let ?g = "(of_char d :: nat) - of_char CHR ''0''"
  let ?r = "(0 * 10 + ?g) mod 2 ^ 64"
  have 1: "readIntTextImpl False False 0 ((d # ds') @ rest) = readIntTextImpl False True ?r (ds' @ rest)"
    by (simp only: append_Cons readIntTextImpl_digit[OF d])
  have 2: "readIntTextImpl False True ?r (ds' @ rest)
      = Inr (False, True, if ds' = [] then ?r else (?r * 10 ^ length ds' + dec_value ds') mod 2 ^ 64, rest)"
    by (rule readIntTextImpl_digits[OF ds' assms(3)])
  have 3: "(if ds' = [] then ?r else (?r * 10 ^ length ds' + dec_value ds') mod 2 ^ 64)
      = dec_value (d # ds') mod 2 ^ 64"
  proof (cases "ds' = []")
    case True
    then show ?thesis by simp
  next
    case False
    have "(?r * 10 ^ length ds' + dec_value ds') mod 2 ^ 64
        = (0 * 10 ^ Suc (length ds') + (?g * 10 ^ length ds' + dec_value ds')) mod 2 ^ 64"
      by (rule mod_step)
    also have "\<dots> = dec_value (d # ds') mod 2 ^ 64" by simp
    finally show ?thesis using False by (simp only: if_False)
  qed
  show ?thesis unfolding ds by (simp only: 1 2 3)
qed

lemma readIntText_digits:
  assumes "\<forall>c \<in> set ds. isNumericASCII c" and "ds \<noteq> []"
    and "rest = [] \<or> \<not> isNumericASCII (hd rest)"
  shows "readIntText (ds @ rest) = Inr (dec_value ds mod 2 ^ 64, rest)"
proof -
  have ne: "ds @ rest \<noteq> []" using assms(2) by simp
  show ?thesis
    unfolding readIntText_def
    by (simp only: ne if_False readIntTextImpl_first[OF assms] sum.case prod.case simp_thms)
qed

lemma readIntText_toString:
  assumes "n < 2 ^ 64" and "rest = [] \<or> \<not> isNumericASCII (hd rest)"
  shows "readIntText (toString n @ rest) = Inr (n, rest)"
proof -
  have "readIntText (toString n @ rest) = Inr (dec_value (toString n) mod 2 ^ 64, rest)"
    by (rule readIntText_digits[OF toString_numeric toString_nonempty assms(2)])
  moreover have "dec_value (toString n) mod 2 ^ 64 = n"
    using assms(1) by (simp only: dec_value_toString mod_less)
  ultimately show ?thesis by (simp only:)
qed

lemma skipWhitespaceIfAny_append:
  "\<forall>c \<in> set ws. isWhitespaceASCII c \<Longrightarrow> rest = [] \<or> \<not> isWhitespaceASCII (hd rest) \<Longrightarrow>
   skipWhitespaceIfAny (ws @ rest) = rest"
  by (induction ws) (auto simp: skipWhitespaceIfAny_def dropWhile_eq_self_iff)

lemma hd_toString_numeric: "isNumericASCII (hd (toString n))"
  using toString_numeric[of n] toString_nonempty[of n] by (cases "toString n") auto


lemma decimal_branch:
  "getSimpleTypeByName env (''decimal('' @ body @ '')'') =
     (case readIntText body of
        Inl e \<Rightarrow> Inl e
      | Inr (precision, buf1) \<Rightarrow>
          (case assertChar CHR '','' (skipWhitespaceIfAny buf1) of
             Inl e \<Rightarrow> Inl e
           | Inr buf2 \<Rightarrow>
               createDecimal env precision
                 (tryReadIntText (uninitialized_scale env) (skipWhitespaceIfAny buf2))))"
proof -
  let ?n = "''decimal('' @ body @ '')''"
  have b: "drop 8 (butlast ?n) = body"
    by (simp add: butlast_append)
  have s: "starts_with ?n ''decimal(''" by (simp add: starts_with_def)
  have e: "ends_with ?n CHR '')''" by (simp add: ends_with_def)
  have n: "?n \<noteq> ''string''" "?n \<noteq> ''binary''" "?n \<noteq> ''long''" "?n \<noteq> ''integer''"
     "?n \<noteq> ''short''" "?n \<noteq> ''byte''" "?n \<noteq> ''float''" "?n \<noteq> ''double''"
     "?n \<noteq> ''boolean''" "?n \<noteq> ''date''" "?n \<noteq> ''timestamp''"
    by simp_all
  show ?thesis
    unfolding getSimpleTypeByName_def
    by (simp only: n s e b if_False if_True simp_thms)
qed

lemma readIntText_10: "readIntText ''10'' = Inr (10, [])"
  by (simp add: readIntText_def isNumericASCII_def less_eq_char_def)

lemma comma_char: "\<not> isWhitespaceASCII CHR '',''" "\<not> isNumericASCII CHR '',''"
  by (simp_all add: isWhitespaceASCII_def isNumericASCII_def less_eq_char_def)

lemma tryReadIntText_toString:
  assumes "s < 2 ^ 64"
  shows "tryReadIntText x (toString s) = s"
proof -
  have "readIntText (toString s @ []) = Inr (s, [])"
    by (rule readIntText_toString[OF assms]) simp
  then have "readIntText (toString s) = Inr (s, [])" by (simp only: append_Nil2)
  then show ?thesis by (simp only: tryReadIntText_def sum.case prod.case)
qed

text \<open>
  C2, as the claim states it, fails: the name \<^verbatim>\<open>decimal(10)\<close>, in which the scale and the comma are
  missing, is not resolved. After the precision \<^verbatim>\<open>getSimpleTypeByName\<close> calls
  \<^verbatim>\<open>assertChar(',', buf)\<close>, which throws at the end of the buffer.
\<close>

theorem decimal_counterexample:
  "isl (getSimpleTypeByName example_helpers ''decimal(10)'')"
  by (simp add: getSimpleTypeByName_def starts_with_def ends_with_def readIntText_10
        skipWhitespaceIfAny_def assertChar_def)

text \<open>
  C2, amended. For decimal numerals \<open>p\<close> and \<open>s\<close> below \<open>2^64\<close> and any whitespace before and
  after the comma, the name \<^verbatim>\<open>decimal(p,s)\<close> is resolved to what \<^verbatim>\<open>createDecimal\<close> returns for the
  precision \<open>p\<close> and the scale \<open>s\<close>; the name \<^verbatim>\<open>decimal(p)\<close>, without a comma, is not resolved.
\<close>

theorem decimal_resolution:
  assumes "p < 2 ^ 64" and "s < 2 ^ 64"
    and "\<forall>c \<in> set ws1. isWhitespaceASCII c" and "\<forall>c \<in> set ws2. isWhitespaceASCII c"
  shows "getSimpleTypeByName env (''decimal('' @ toString p @ ws1 @ '','' @ ws2 @ toString s @ '')'')
           = createDecimal env p s
       \<and> isl (getSimpleTypeByName env (''decimal('' @ toString p @ '')''))"
proof
  let ?rest = "ws1 @ '','' @ ws2 @ toString s"
  have r0: "?rest = [] \<or> \<not> isNumericASCII (hd ?rest)"
  proof (cases ws1)
    case Nil
    then show ?thesis using comma_char by simp
  next
    case (Cons w ws)
    with assms(3) have "isWhitespaceASCII w" by simp
    with Cons show ?thesis using numeric_not_whitespace[of w] by auto
  qed
  have 1: "readIntText (toString p @ ?rest) = Inr (p, ?rest)"
    by (rule readIntText_toString[OF assms(1) r0])
  have "'','' @ ws2 @ toString s = [] \<or> \<not> isWhitespaceASCII (hd ('','' @ ws2 @ toString s))"
    using comma_char by simp
  then have 2: "skipWhitespaceIfAny ?rest = '','' @ ws2 @ toString s"
    by (rule skipWhitespaceIfAny_append[OF assms(3)])
  have "toString s = [] \<or> \<not> isWhitespaceASCII (hd (toString s))"
    using numeric_not_whitespace[OF hd_toString_numeric] by simp
  then have 3: "skipWhitespaceIfAny (ws2 @ toString s) = toString s"
    by (rule skipWhitespaceIfAny_append[OF assms(4)])
  have 5: "assertChar CHR '','' ('','' @ ws2 @ toString s) = Inr (ws2 @ toString s)"
    by (simp add: assertChar_def)
  note 6 = tryReadIntText_toString[OF assms(2), of "uninitialized_scale env"]
  have "getSimpleTypeByName env (''decimal('' @ (toString p @ ?rest) @ '')'') = createDecimal env p s"
    by (simp only: decimal_branch 1 2 3 5 6 sum.case prod.case)
  then show "getSimpleTypeByName env (''decimal('' @ toString p @ ws1 @ '','' @ ws2 @ toString s @ '')'')
           = createDecimal env p s"
    by (simp only: append_assoc)
next
  have "readIntText (toString p @ []) = Inr (p, [])"
    by (rule readIntText_toString[OF assms(1)]) simp
  then have 1: "readIntText (toString p) = Inr (p, [])" by (simp only: append_Nil2)
  have 2: "skipWhitespaceIfAny [] = []" by (simp add: skipWhitespaceIfAny_def)
  have 3: "assertChar CHR '','' [] = Inl CANNOT_PARSE_INPUT_ASSERTION_FAILED"
    by (simp add: assertChar_def)
  have "getSimpleTypeByName env (''decimal('' @ toString p @ '')'')
           = Inl CANNOT_PARSE_INPUT_ASSERTION_FAILED"
    by (simp only: decimal_branch 1 2 3 sum.case prod.case)
  then show "isl (getSimpleTypeByName env (''decimal('' @ toString p @ '')''))"
    by (simp only: sum.disc)
qed


theorem decimal_resolution_witness:
  "getSimpleTypeByName example_helpers ''decimal(10 , 2)'' = Inr (DataTypeDecimal 10 2)
   \<and> isl (getSimpleTypeByName example_helpers ''decimal(10)'')"
proof -
  have a: "toString 10 = ''10''" by code_simp
  have b: "toString 2 = ''2''" by code_simp
  have w: "\<forall>c \<in> set '' ''. isWhitespaceASCII c" by (simp add: isWhitespaceASCII_def)
  have p: "(10::nat) < 2 ^ 64" by simp
  have s: "(2::nat) < 2 ^ 64" by simp
  note law = decimal_resolution [OF p s w w, of example_helpers]
  have c: "createDecimal example_helpers 10 2 = Inr (DataTypeDecimal 10 2)"
    by (simp add: example_helpers_def)
  from law have "getSimpleTypeByName example_helpers (''decimal('' @ ''10'' @ '' '' @ '','' @ '' '' @ ''2'' @ '')'')
      = Inr (DataTypeDecimal 10 2)"
    by (simp only: a b c)
  then have 1: "getSimpleTypeByName example_helpers ''decimal(10 , 2)'' = Inr (DataTypeDecimal 10 2)"
    by (simp only: append.simps)
  from law have "isl (getSimpleTypeByName example_helpers (''decimal('' @ ''10'' @ '')''))"
    by (simp only: a)
  then have 2: "isl (getSimpleTypeByName example_helpers ''decimal(10)'')"
    by (simp only: append.simps)
  from 1 2 show ?thesis by (rule conjI)
qed

text \<open>
  For the name \<^verbatim>\<open>decimal(p,)\<close> the scale is the content that the variable \<^verbatim>\<open>scale\<close> happens to have:
  \<^verbatim>\<open>tryReadIntText\<close> does not write to it at the end of the buffer.
\<close>

lemma decimal_missing_scale:
  assumes "p < 2 ^ 64"
  shows "getSimpleTypeByName env (''decimal('' @ toString p @ '','' @ '')'')
           = createDecimal env p (uninitialized_scale env)"
proof -
  have "'','' = [] \<or> \<not> isNumericASCII (hd '','')" using comma_char by simp
  then have 1: "readIntText (toString p @ '','') = Inr (p, '','')"
    by (rule readIntText_toString[OF assms])
  have 2: "skipWhitespaceIfAny '','' = '',''"
    using comma_char by (simp add: skipWhitespaceIfAny_def)
  have 3: "assertChar CHR '','' '','' = Inr []" by (simp add: assertChar_def)
  have 4: "skipWhitespaceIfAny [] = []" by (simp add: skipWhitespaceIfAny_def)
  have 5: "tryReadIntText (uninitialized_scale env) [] = uninitialized_scale env"
    by (simp add: tryReadIntText_def readIntText_def)
  have "getSimpleTypeByName env (''decimal('' @ (toString p @ '','') @ '')'')
           = createDecimal env p (uninitialized_scale env)"
    by (simp only: decimal_branch 1 2 3 4 5 sum.case prod.case)
  then show ?thesis by (simp only: append_assoc)
qed

end
